theory Spec2Isabelle
  imports Main
begin

section \<open>Python strings and exceptions\<close>

text \<open>
  A Python \<open>str\<close> is a sequence of Unicode code points, so it is modelled as a list of
  code-point numbers. \<open>ustr\<close> embeds an ASCII literal of the source.
\<close>

type_synonym ustring = "nat list"

definition ustr :: "string \<Rightarrow> ustring" where
  "ustr s = map of_char s"

text \<open>The exceptions the modelled code raises, each with the text \<open>str(e)\<close> gives.\<close>

datatype exn = ValueError ustring | OverflowError ustring | AttributeError ustring
  | UnpicklingError ustring

fun exn_str :: "exn \<Rightarrow> ustring" where
  "exn_str (ValueError m) = m"
| "exn_str (OverflowError m) = m"
| "exn_str (AttributeError m) = m"
| "exn_str (UnpicklingError m) = m"

section \<open>The library pieces the source calls\<close>

subsection \<open>Unicode decimal digits\<close>

text \<open>
  In a \<open>str\<close> pattern, \<open>\d\<close> matches every code point of Unicode category Nd, and
  \<open>int()\<close> reads each of them as its decimal value. The category consists of runs of ten
  consecutive code points, digit zero first; \<open>Nd_zeros\<close> lists the zero of each run
  (Unicode 14.0.0, the database of CPython 3.11). The first run is ASCII \<open>0\<close>..\<open>9\<close>.
\<close>

definition Nd_zeros :: "nat list" where
  "Nd_zeros = [48, 1632, 1776, 1984, 2406, 2534, 2662, 2790, 2918, 3046, 3174, 3302, 3430,
     3558, 3664, 3792, 3872, 4160, 4240, 6112, 6160, 6470, 6608, 6784, 6800, 6992, 7088,
     7232, 7248, 42528, 43216, 43264, 43472, 43504, 43600, 44016, 65296, 66720, 68912,
     69734, 69872, 69942, 70096, 70384, 70736, 70864, 71248, 71360, 71472, 71904, 72016,
     72784, 73040, 73120, 92768, 92864, 93008, 120782, 120792, 120802, 120812, 120822,
     123200, 123632, 125264, 130032]"

definition is_Nd :: "nat \<Rightarrow> bool" where
  "is_Nd c = list_ex (\<lambda>z. z \<le> c \<and> c < z + 10) Nd_zeros"

definition digit_value :: "nat \<Rightarrow> nat" where
  "digit_value c = (case filter (\<lambda>z. z \<le> c \<and> c < z + 10) Nd_zeros of
                      [] \<Rightarrow> 0 | z # _ \<Rightarrow> c - z)"

definition is_ascii_digit :: "nat \<Rightarrow> bool" where
  "is_ascii_digit c = (48 \<le> c \<and> c \<le> 57)"

subsection \<open>Regular expressions\<close>

text \<open>
  The fragment of \<open>re\<close> that the patterns of the source use: a literal character, a
  range \<open>[a-b]\<close>, the class \<open>\d\<close>, sequence, ordered alternative and named group.
  \<open>rmatch r s\<close> lists, in the order the backtracking matcher tries them, every way
  \<open>r\<close> matches a prefix of \<open>s\<close>: the groups captured and the input left over.
\<close>

datatype cset = Lit nat | Range nat nat | Digit

fun cset_mem :: "cset \<Rightarrow> nat \<Rightarrow> bool" where
  "cset_mem (Lit a) c = (c = a)"
| "cset_mem (Range a b) c = (a \<le> c \<and> c \<le> b)"
| "cset_mem Digit c = is_Nd c"

datatype regex = Eps | Chr cset | Seq regex regex | Alt regex regex | Group string regex

type_synonym groups = "(string \<times> ustring) list"

fun rmatch :: "regex \<Rightarrow> ustring \<Rightarrow> (groups \<times> ustring) list" where
  "rmatch Eps s = [([], s)]"
| "rmatch (Chr cs) s = (case s of [] \<Rightarrow> [] | c # r \<Rightarrow> if cset_mem cs c then [([], r)] else [])"
| "rmatch (Seq a b) s =
     concat (map (\<lambda>(g1, r1). map (\<lambda>(g2, r2). (g1 @ g2, r2)) (rmatch b r1)) (rmatch a s))"
| "rmatch (Alt a b) s = rmatch a s @ rmatch b s"
| "rmatch (Group n a) s =
     map (\<lambda>(g, r). ((n, take (length s - length r) s) # g, r)) (rmatch a s)"

text \<open>\<open>re.fullmatch\<close>: the first way to match that consumes the whole input.\<close>

definition re_fullmatch :: "regex \<Rightarrow> ustring \<Rightarrow> groups option" where
  "re_fullmatch r s = map_option fst (find (\<lambda>(g, rest). rest = []) (rmatch r s))"

text \<open>\<open>pattern.match\<close>: the first way to match a prefix, with the input left over.\<close>

definition re_match :: "regex \<Rightarrow> ustring \<Rightarrow> (groups \<times> ustring) option" where
  "re_match r s = (case rmatch r s of [] \<Rightarrow> None | m # _ \<Rightarrow> Some m)"

fun seqs :: "regex list \<Rightarrow> regex" where
  "seqs [] = Eps"
| "seqs (r # rs) = Seq r (seqs rs)"

fun alts :: "regex \<Rightarrow> regex list \<Rightarrow> regex" where
  "alts r [] = r"
| "alts r (q # qs) = Alt r (alts q qs)"

text \<open>\<open>r'\d{10}'\<close>\<close>

definition phone_regex :: regex where
  "phone_regex = seqs (replicate 10 (Chr Digit))"

text \<open>
  \<open>int()\<close> on the strings the groups of the date pattern capture: decimal digits, after
  an optional leading blank (which \<open>int\<close> strips).
\<close>

definition py_int :: "ustring \<Rightarrow> nat" where
  "py_int s = foldl (\<lambda>a c. 10 * a + digit_value c) 0 (dropWhile (\<lambda>c. c = 32) s)"

subsection \<open>Decimal rendering\<close>

text \<open>\<open>str(n)\<close> for a non-negative integer, and the zero-padded fields of \<open>strftime\<close>.\<close>

function str_nat :: "nat \<Rightarrow> ustring" where
  "str_nat n = (if n < 10 then [48 + n] else str_nat (n div 10) @ [48 + n mod 10])"
  by pat_completeness auto
termination
  by (relation "measure (\<lambda>n. n)") auto

declare str_nat.simps [simp del]

definition two_digits :: "nat \<Rightarrow> ustring" where
  "two_digits n = [48 + n div 10 mod 10, 48 + n mod 10]"

definition four_digits :: "nat \<Rightarrow> ustring" where
  "four_digits n = [48 + n div 1000 mod 10, 48 + n div 100 mod 10, 48 + n div 10 mod 10, 48 + n mod 10]"

subsection \<open>Calendar dates\<close>

text \<open>\<open>datetime.date\<close>: the proleptic Gregorian calendar, years 1 to 9999.\<close>

record date =
  year :: nat
  month :: nat
  day :: nat

definition is_leap :: "nat \<Rightarrow> bool" where
  "is_leap y = (y mod 4 = 0 \<and> (y mod 100 \<noteq> 0 \<or> y mod 400 = 0))"

definition days_in_month :: "nat \<Rightarrow> nat \<Rightarrow> nat" where
  "days_in_month y m =
     (if m = 2 \<and> is_leap y then 29
      else [0, 31, 28, 31, 30, 31, 30, 31, 31, 30, 31, 30, 31] ! m)"

definition date_new :: "nat \<Rightarrow> nat \<Rightarrow> nat \<Rightarrow> exn + date" where
  "date_new y m d =
     (if \<not> (1 \<le> y \<and> y \<le> 9999)
        then Inl (ValueError (ustr ''year '' @ str_nat y @ ustr '' is out of range''))
      else if \<not> (1 \<le> m \<and> m \<le> 12) then Inl (ValueError (ustr ''month must be in 1..12''))
      else if \<not> (1 \<le> d \<and> d \<le> days_in_month y m)
        then Inl (ValueError (ustr ''day is out of range for month''))
      else Inr \<lparr>year = y, month = m, day = d\<rparr>)"

definition valid_date :: "date \<Rightarrow> bool" where
  "valid_date t = (1 \<le> year t \<and> year t \<le> 9999 \<and> 1 \<le> month t \<and> month t \<le> 12
                   \<and> 1 \<le> day t \<and> day t \<le> days_in_month (year t) (month t))"

text \<open>\<open>d.replace(year=y)\<close> builds a new date and so checks it again.\<close>

definition replace_year :: "date \<Rightarrow> nat \<Rightarrow> exn + date" where
  "replace_year t y = date_new y (month t) (day t)"

definition date_less :: "date \<Rightarrow> date \<Rightarrow> bool" where
  "date_less a b = (year a < year b \<or> (year a = year b \<and>
                     (month a < month b \<or> (month a = month b \<and> day a < day b))))"

definition days_before_year :: "nat \<Rightarrow> nat" where
  "days_before_year y = (y - 1) * 365 + (y - 1) div 4 - (y - 1) div 100 + (y - 1) div 400"

definition days_before_month :: "nat \<Rightarrow> nat \<Rightarrow> nat" where
  "days_before_month y m =
     [0, 0, 31, 59, 90, 120, 151, 181, 212, 243, 273, 304, 334] ! m
       + (if m > 2 \<and> is_leap y then 1 else 0)"

definition toordinal :: "date \<Rightarrow> nat" where
  "toordinal t = days_before_year (year t) + days_before_month (year t) (month t) + day t"

text \<open>\<open>(a - b).days\<close>\<close>

definition days_between :: "date \<Rightarrow> date \<Rightarrow> int" where
  "days_between a b = int (toordinal a) - int (toordinal b)"

text \<open>
  \<open>date.fromordinal\<close>, following the library's \<open>_ord2ymd\<close>: 146097, 36524 and 1461 are
  the days in 400, 100 and 4 years.
\<close>

definition fromordinal :: "nat \<Rightarrow> date" where
  "fromordinal k =
     (let n = k - 1;
          n400 = n div 146097; n = n mod 146097;
          n100 = n div 36524; n = n mod 36524;
          n4 = n div 1461; n = n mod 1461;
          n1 = n div 365; n = n mod 365;
          y = n400 * 400 + 1 + n100 * 100 + n4 * 4 + n1
      in if n1 = 4 \<or> n100 = 4 then \<lparr>year = y - 1, month = 12, day = 31\<rparr>
         else
           let leapyear = (n1 = 3 \<and> (n4 \<noteq> 24 \<or> n100 = 3));
               m = (n + 50) div 32;
               preceding = [0, 0, 31, 59, 90, 120, 151, 181, 212, 243, 273, 304, 334] ! m
                             + (if m > 2 \<and> leapyear then 1 else 0)
           in if preceding > n
              then let m' = m - 1;
                       preceding' = preceding
                          - ([0, 31, 28, 31, 30, 31, 30, 31, 31, 30, 31, 30, 31] ! m'
                             + (if m' = 2 \<and> leapyear then 1 else 0))
                   in \<lparr>year = y, month = m', day = n - preceding' + 1\<rparr>
              else \<lparr>year = y, month = m, day = n - preceding + 1\<rparr>)"

text \<open>\<open>t + timedelta(days=n)\<close>; 3652059 is the ordinal of 31.12.9999.\<close>

definition date_add_days :: "date \<Rightarrow> int \<Rightarrow> exn + date" where
  "date_add_days t n =
     (let k = int (toordinal t) + n
      in if 0 < k \<and> k \<le> 3652059 then Inr (fromordinal (nat k))
         else Inl (OverflowError (ustr ''date value out of range'')))"

text \<open>
  \<open>t.strftime("%d.%m.%Y")\<close>. The C library renders \<open>%Y\<close>; for a year below 1000 some
  platforms pad it to four digits and others do not, so \<open>pad\<close> says which.
\<close>

definition strftime_d_m_Y :: "bool \<Rightarrow> date \<Rightarrow> ustring" where
  "strftime_d_m_Y pad t =
     two_digits (day t) @ ustr ''.'' @ two_digits (month t) @ ustr ''.''
       @ (if pad then four_digits (year t) else str_nat (year t))"

text \<open>
  \<open>datetime.strptime(s, "%d.%m.%Y")\<close>. The library turns the format into the pattern
  \<^verbatim>\<open>(?P<d>3[0-1]|[1-2]\d|0[1-9]|[1-9]| [1-9])\.(?P<m>1[0-2]|0[1-9]|[1-9])\.(?P<Y>\d\d\d\d)\<close>,
  matches it at the start of the input, refuses input left over, reads the groups with
  \<open>int\<close> and builds the date. Every failure is a \<open>ValueError\<close>.
\<close>

definition ch :: "char \<Rightarrow> nat" where
  "ch c = of_char c"

definition day_regex :: regex where
  "day_regex = Group ''d'' (alts
     (Seq (Chr (Lit (ch CHR ''3''))) (Chr (Range (ch CHR ''0'') (ch CHR ''1''))))
     [Seq (Chr (Range (ch CHR ''1'') (ch CHR ''2''))) (Chr Digit),
      Seq (Chr (Lit (ch CHR ''0''))) (Chr (Range (ch CHR ''1'') (ch CHR ''9''))),
      Chr (Range (ch CHR ''1'') (ch CHR ''9'')),
      Seq (Chr (Lit (ch CHR '' ''))) (Chr (Range (ch CHR ''1'') (ch CHR ''9'')))])"

definition month_regex :: regex where
  "month_regex = Group ''m'' (alts
     (Seq (Chr (Lit (ch CHR ''1''))) (Chr (Range (ch CHR ''0'') (ch CHR ''2''))))
     [Seq (Chr (Lit (ch CHR ''0''))) (Chr (Range (ch CHR ''1'') (ch CHR ''9''))),
      Chr (Range (ch CHR ''1'') (ch CHR ''9''))])"

definition year_regex :: regex where
  "year_regex = Group ''Y'' (seqs [Chr Digit, Chr Digit, Chr Digit, Chr Digit])"

definition format_regex :: regex where
  "format_regex = seqs [day_regex, Chr (Lit (ch CHR ''.'')), month_regex,
                        Chr (Lit (ch CHR ''.'')), year_regex]"

definition group :: "groups \<Rightarrow> string \<Rightarrow> ustring" where
  "group g n = (case map_of g n of None \<Rightarrow> [] | Some v \<Rightarrow> v)"

definition strptime_d_m_Y :: "ustring \<Rightarrow> exn + date" where
  "strptime_d_m_Y s =
     (case re_match format_regex s of
        None \<Rightarrow> Inl (ValueError (ustr ''time data does not match format''))
      | Some (g, rest) \<Rightarrow>
          if rest \<noteq> [] then Inl (ValueError (ustr ''unconverted data remains: '' @ rest))
          else date_new (py_int (group g ''Y'')) (py_int (group g ''m'')) (py_int (group g ''d'')))"

section \<open>The fields\<close>

text \<open>
  \<open>Phone.__init__\<close>: the value is kept when it fully matches \<open>\d{10}\<close>. The model of a
  \<open>Phone\<close> is its value.
\<close>

definition Phone :: "ustring \<Rightarrow> exn + ustring" where
  "Phone v = (case re_fullmatch phone_regex v of
                Some g \<Rightarrow> Inr v
              | None \<Rightarrow> Inl (ValueError (ustr ''Phone number must contain exactly 10 digits.'')))"

text \<open>
  \<open>Birthday.__init__\<close>: every \<open>ValueError\<close> of \<open>strptime\<close> is replaced by the class's own.
  The model of a \<open>Birthday\<close> is the date it holds.
\<close>

definition Birthday :: "ustring \<Rightarrow> exn + date" where
  "Birthday v = (case strptime_d_m_Y v of
                   Inr t \<Rightarrow> Inr t
                 | Inl (ValueError m) \<Rightarrow> Inl (ValueError (ustr ''Invalid date format. Use DD.MM.YYYY''))
                 | Inl e \<Rightarrow> Inl e)"

text \<open>\<open>Birthday.__str__\<close>\<close>

definition Birthday_str :: "bool \<Rightarrow> date \<Rightarrow> ustring" where
  "Birthday_str pad t = strftime_d_m_Y pad t"

section \<open>Record\<close>

text \<open>
  A \<open>Record\<close> holds a name, the list of its phones and an optional birthday. Every
  \<open>Phone\<close> of the list is an object of its own (\<open>add_phone\<close> creates it), so the list of
  the values is the whole state.
\<close>

record Record =
  name :: ustring
  phones :: "ustring list"
  birthday :: "date option"

definition Record_init :: "ustring \<Rightarrow> Record" where
  "Record_init n = \<lparr>name = n, phones = [], birthday = None\<rparr>"

definition add_phone :: "Record \<Rightarrow> ustring \<Rightarrow> exn + Record" where
  "add_phone r phone_number =
     (case Phone phone_number of
        Inl e \<Rightarrow> Inl e
      | Inr phone \<Rightarrow> Inr (r\<lparr>phones := phones r @ [phone]\<rparr>))"

text \<open>
  The loop of \<open>remove_phone\<close>: the first phone with the value is taken out of the list;
  \<open>None\<close> when the loop ends without finding one.
\<close>

fun remove_first :: "ustring \<Rightarrow> ustring list \<Rightarrow> ustring list option" where
  "remove_first v [] = None"
| "remove_first v (p # ps) =
     (if p = v then Some ps else map_option ((#) p) (remove_first v ps))"

definition remove_phone :: "Record \<Rightarrow> ustring \<Rightarrow> ustring \<times> Record" where
  "remove_phone r phone_number =
     (case remove_first phone_number (phones r) of
        Some ps \<Rightarrow> (ustr ''Phone '' @ phone_number @ ustr '' removed.'', r\<lparr>phones := ps\<rparr>)
      | None \<Rightarrow> (ustr ''Phone '' @ phone_number @ ustr '' not found.'', r))"

text \<open>The loop of \<open>edit_phone\<close>: the first phone with the old value gets the new one.\<close>

fun replace_first :: "ustring \<Rightarrow> ustring \<Rightarrow> ustring list \<Rightarrow> ustring list option" where
  "replace_first v w [] = None"
| "replace_first v w (p # ps) =
     (if p = v then Some (w # ps) else map_option ((#) p) (replace_first v w ps))"

definition edit_phone :: "Record \<Rightarrow> ustring \<Rightarrow> ustring \<Rightarrow> ustring \<times> Record" where
  "edit_phone r old_phone new_phone =
     (case replace_first old_phone new_phone (phones r) of
        Some ps \<Rightarrow> (ustr ''Phone '' @ old_phone @ ustr '' changed to '' @ new_phone @ ustr ''.'',
                    r\<lparr>phones := ps\<rparr>)
      | None \<Rightarrow> (ustr ''Phone '' @ old_phone @ ustr '' not found.'', r))"

definition Record_add_birthday :: "Record \<Rightarrow> ustring \<Rightarrow> exn + Record" where
  "Record_add_birthday r birthday_date =
     (case Birthday birthday_date of
        Inl e \<Rightarrow> Inl e
      | Inr b \<Rightarrow> Inr (r\<lparr>birthday := Some b\<rparr>))"

text \<open>
  \<open>days_to_birthday\<close>, with the date \<open>datetime.today().date()\<close> returns as the argument
  \<open>today\<close>. Both calls of \<open>replace\<close> can raise.
\<close>

definition days_to_birthday :: "date \<Rightarrow> Record \<Rightarrow> exn + int option" where
  "days_to_birthday today r =
     (case birthday r of
        None \<Rightarrow> Inr None
      | Some b \<Rightarrow>
          (case replace_year b (year today) of
             Inl e \<Rightarrow> Inl e
           | Inr next_birthday \<Rightarrow>
               if date_less next_birthday today
               then (case replace_year next_birthday (year today + 1) of
                       Inl e \<Rightarrow> Inl e
                     | Inr next_birthday' \<Rightarrow> Inr (Some (days_between next_birthday' today)))
               else Inr (Some (days_between next_birthday today))))"

section \<open>AddressBook\<close>

text \<open>
  The dictionary of the book, in insertion order. \<open>d[k] = v\<close> under a key that is present
  replaces the value where it stands; a new key goes to the end.
\<close>

type_synonym AddressBook = "(ustring \<times> Record) list"

fun dict_set :: "'k \<Rightarrow> 'v \<Rightarrow> ('k \<times> 'v) list \<Rightarrow> ('k \<times> 'v) list" where
  "dict_set k v [] = [(k, v)]"
| "dict_set k v ((k', v') # kvs) =
     (if k' = k then (k, v) # kvs else (k', v') # dict_set k v kvs)"

text \<open>
  A method that changes a record changes the object the book holds under its key. The
  entry keeps its place, and no entry is added: a record that is not in the book stays
  outside.
\<close>

fun mutate_record :: "ustring \<Rightarrow> Record \<Rightarrow> AddressBook \<Rightarrow> AddressBook" where
  "mutate_record k v [] = []"
| "mutate_record k v ((k', v') # kvs) =
     (if k' = k then (k', v) # kvs else (k', v') # mutate_record k v kvs)"

definition add_record :: "AddressBook \<Rightarrow> Record \<Rightarrow> ustring \<times> AddressBook" where
  "add_record book r =
     (ustr ''Record for '' @ name r @ ustr '' added.'', dict_set (name r) r book)"

text \<open>\<open>find\<close> returns either a record or the string \<open>"Contact not found."\<close>.\<close>

datatype found = Rec Record | Str ustring

definition find_contact :: "AddressBook \<Rightarrow> ustring \<Rightarrow> found" where
  "find_contact book n =
     (case map_of book n of Some r \<Rightarrow> Rec r | None \<Rightarrow> Str (ustr ''Contact not found.''))"

definition delete :: "AddressBook \<Rightarrow> ustring \<Rightarrow> ustring \<times> AddressBook" where
  "delete book n =
     (if n \<in> fst ` set book
      then (ustr ''Record for '' @ n @ ustr '' deleted.'', filter (\<lambda>kv. fst kv \<noteq> n) book)
      else (ustr ''Contact not found.'', book))"

text \<open>One entry of the list \<open>get_upcoming_birthdays\<close> returns.\<close>

record upcoming =
  u_name :: ustring
  u_birthday :: date
  congratulation_date :: ustring

text \<open>
  The loop of \<open>get_upcoming_birthdays\<close> over the records in the order of the dictionary;
  \<open>acc\<close> is the list built so far. An exception leaves the loop.
\<close>

fun upcoming_loop :: "bool \<Rightarrow> date \<Rightarrow> Record list \<Rightarrow> upcoming list \<Rightarrow> exn + upcoming list" where
  "upcoming_loop pad today [] acc = Inr acc"
| "upcoming_loop pad today (r # rs) acc =
     (case birthday r of
        None \<Rightarrow> upcoming_loop pad today rs acc
      | Some b \<Rightarrow>
          (case days_to_birthday today r of
             Inl e \<Rightarrow> Inl e
           | Inr None \<Rightarrow> upcoming_loop pad today rs acc
           | Inr (Some days_until_birthday) \<Rightarrow>
               if 0 \<le> days_until_birthday \<and> days_until_birthday \<le> 7
               then (case date_add_days today days_until_birthday of
                       Inl e \<Rightarrow> Inl e
                     | Inr c \<Rightarrow> upcoming_loop pad today rs
                         (acc @ [\<lparr>u_name = name r, u_birthday = b,
                                  congratulation_date = strftime_d_m_Y pad c\<rparr>]))
               else upcoming_loop pad today rs acc))"

definition get_upcoming_birthdays :: "bool \<Rightarrow> date \<Rightarrow> AddressBook \<Rightarrow> exn + upcoming list" where
  "get_upcoming_birthdays pad today book = upcoming_loop pad today (map snd book) []"

section \<open>Persistence\<close>

subsection \<open>What \<open>pickle\<close> writes\<close>

text \<open>
  \<open>pickle.dump\<close> writes a program for the unpickler, which rebuilds the object. The
  stream is modelled by the tree of objects it describes: a string, \<open>None\<close>, a byte string,
  a list, a dictionary (its items in order), the call of a class on arguments (\<open>REDUCE\<close>),
  and an instance of a class with the state for its \<open>__dict__\<close> (\<open>NEWOBJ\<close>, \<open>BUILD\<close>). A class
  is named by its module and its name. The encoding of the tree in bytes and the memo,
  through which an object met twice is written once, are not modelled.
\<close>

datatype pickled = P_None | P_Str ustring | P_Bytes "nat list" | P_List "pickled list"
  | P_Dict "(pickled \<times> pickled) list" | P_Reduce "string \<times> string" "pickled list"
  | P_Obj "string \<times> string" pickled

text \<open>
  An instance of a class of the program has no \<open>__reduce__\<close> or \<open>__getstate__\<close> of its own:
  it is written as its class and its \<open>__dict__\<close>, the attributes in the order they were set.
  The program runs as a script, so the module of its classes is \<open>__main__\<close>.
\<close>

definition pickle_instance :: "string \<Rightarrow> (string \<times> pickled) list \<Rightarrow> pickled" where
  "pickle_instance cls attrs =
     P_Obj (''__main__'', cls) (P_Dict (map (\<lambda>(k, v). (P_Str (ustr k), v)) attrs))"

text \<open>
  \<open>date.__reduce__\<close>: the class and one argument, four bytes holding the year (high byte
  first), the month and the day.
\<close>

definition pickle_date :: "date \<Rightarrow> pickled" where
  "pickle_date t =
     P_Reduce (''datetime'', ''date'') [P_Bytes [year t div 256, year t mod 256, month t, day t]]"

definition pickle_Name :: "ustring \<Rightarrow> pickled" where
  "pickle_Name v = pickle_instance ''Name'' [(''value'', P_Str v)]"

definition pickle_Phone :: "ustring \<Rightarrow> pickled" where
  "pickle_Phone v = pickle_instance ''Phone'' [(''value'', P_Str v)]"

definition pickle_Birthday :: "date \<Rightarrow> pickled" where
  "pickle_Birthday t = pickle_instance ''Birthday'' [(''value'', pickle_date t)]"

definition pickle_Record :: "Record \<Rightarrow> pickled" where
  "pickle_Record r =
     pickle_instance ''Record''
       [(''name'', pickle_Name (name r)),
        (''phones'', P_List (map pickle_Phone (phones r))),
        (''birthday'', case birthday r of None \<Rightarrow> P_None | Some t \<Rightarrow> pickle_Birthday t)]"

text \<open>The one attribute of a \<open>UserDict\<close> is \<open>data\<close>, the dictionary.\<close>

definition pickle_AddressBook :: "AddressBook \<Rightarrow> pickled" where
  "pickle_AddressBook book =
     pickle_instance ''AddressBook''
       [(''data'', P_Dict (map (\<lambda>(k, r). (P_Str k, pickle_Record r)) book))]"

subsection \<open>What \<open>pickle\<close> reads\<close>

text \<open>
  The unpickler builds a dictionary by storing its items in order, so of two items with
  one key the second replaces the value of the first. The keys the program uses are
  strings.
\<close>

fun build_dict :: "(ustring \<times> pickled) list \<Rightarrow> (pickled \<times> pickled) list
    \<Rightarrow> (ustring \<times> pickled) list option" where
  "build_dict d [] = Some d"
| "build_dict d ((P_Str k, v) # kvs) = build_dict (dict_set k v d) kvs"
| "build_dict d (_ # kvs) = None"

text \<open>
  An instance is made by \<open>cls.__new__\<close>, without a call of \<open>__init__\<close>, and its \<open>__dict__\<close> is
  updated with the state. \<open>instance_dict cls t\<close> is that \<open>__dict__\<close>, when \<open>t\<close> is an
  instance of the class \<open>cls\<close> of the program.
\<close>

definition instance_dict :: "string \<Rightarrow> pickled \<Rightarrow> (ustring \<times> pickled) list option" where
  "instance_dict cls t =
     (case t of
        P_Obj g (P_Dict kvs) \<Rightarrow> if g = (''__main__'', cls) then build_dict [] kvs else None
      | _ \<Rightarrow> None)"

definition attr :: "(ustring \<times> pickled) list \<Rightarrow> string \<Rightarrow> pickled option" where
  "attr d k = map_of d (ustr k)"

text \<open>
  \<open>date(state)\<close>: four bytes with a month from 1 to 12 in the third are taken as the
  state of a date.
\<close>

definition unpickle_date :: "pickled \<Rightarrow> date option" where
  "unpickle_date t =
     (case t of
        P_Reduce g [P_Bytes [yhi, ylo, m, d]] \<Rightarrow>
          if g = (''datetime'', ''date'') \<and> 1 \<le> m \<and> m \<le> 12
          then Some \<lparr>year = yhi * 256 + ylo, month = m, day = d\<rparr> else None
      | _ \<Rightarrow> None)"

definition unpickle_str :: "pickled \<Rightarrow> ustring option" where
  "unpickle_str t = (case t of P_Str s \<Rightarrow> Some s | _ \<Rightarrow> None)"

text \<open>
  The objects of the program, read back from the tree. A tree of another shape is not an
  address book the model can hold, and gives \<open>None\<close>.
\<close>

definition unpickle_Name :: "pickled \<Rightarrow> ustring option" where
  "unpickle_Name t =
     Option.bind (instance_dict ''Name'' t) (\<lambda>d. Option.bind (attr d ''value'') unpickle_str)"

definition unpickle_Phone :: "pickled \<Rightarrow> ustring option" where
  "unpickle_Phone t =
     Option.bind (instance_dict ''Phone'' t) (\<lambda>d. Option.bind (attr d ''value'') unpickle_str)"

definition unpickle_Birthday :: "pickled \<Rightarrow> date option" where
  "unpickle_Birthday t =
     Option.bind (instance_dict ''Birthday'' t) (\<lambda>d. Option.bind (attr d ''value'') unpickle_date)"

fun unpickle_all :: "(pickled \<Rightarrow> 'a option) \<Rightarrow> pickled list \<Rightarrow> 'a list option" where
  "unpickle_all f [] = Some []"
| "unpickle_all f (t # ts) =
     (case f t of
        None \<Rightarrow> None
      | Some x \<Rightarrow> (case unpickle_all f ts of None \<Rightarrow> None | Some xs \<Rightarrow> Some (x # xs)))"

definition unpickle_phones :: "pickled \<Rightarrow> ustring list option" where
  "unpickle_phones t = (case t of P_List ts \<Rightarrow> unpickle_all unpickle_Phone ts | _ \<Rightarrow> None)"

definition unpickle_birthday_attr :: "pickled \<Rightarrow> date option option" where
  "unpickle_birthday_attr t =
     (case t of P_None \<Rightarrow> Some None | _ \<Rightarrow> map_option Some (unpickle_Birthday t))"

definition unpickle_Record :: "pickled \<Rightarrow> Record option" where
  "unpickle_Record t =
     Option.bind (instance_dict ''Record'' t) (\<lambda>d.
     Option.bind (Option.bind (attr d ''name'') unpickle_Name) (\<lambda>n.
     Option.bind (Option.bind (attr d ''phones'') unpickle_phones) (\<lambda>ps.
     Option.bind (Option.bind (attr d ''birthday'') unpickle_birthday_attr) (\<lambda>b.
       Some \<lparr>name = n, phones = ps, birthday = b\<rparr>))))"

fun unpickle_records :: "(ustring \<times> pickled) list \<Rightarrow> AddressBook option" where
  "unpickle_records [] = Some []"
| "unpickle_records ((k, t) # kts) =
     (case unpickle_Record t of
        None \<Rightarrow> None
      | Some r \<Rightarrow> (case unpickle_records kts of None \<Rightarrow> None | Some b \<Rightarrow> Some ((k, r) # b)))"

definition unpickle_data :: "pickled \<Rightarrow> AddressBook option" where
  "unpickle_data t =
     (case t of
        P_Dict kvs \<Rightarrow> Option.bind (build_dict [] kvs) unpickle_records
      | _ \<Rightarrow> None)"

definition unpickle_AddressBook :: "pickled \<Rightarrow> AddressBook option" where
  "unpickle_AddressBook t =
     Option.bind (instance_dict ''AddressBook'' t) (\<lambda>d.
       Option.bind (attr d ''data'') unpickle_data)"

subsection \<open>\<open>save_data\<close> and \<open>load_data\<close>\<close>

text \<open>
  The files are a map from file names to contents. \<open>save_data\<close> writes the pickle of the
  book over the file. \<open>load_data\<close> reads the book back; a file that is missing gives a new,
  empty book, and every other failure is raised.
\<close>

type_synonym files = "ustring \<rightharpoonup> pickled"

definition save_data :: "AddressBook \<Rightarrow> ustring \<Rightarrow> files \<Rightarrow> files" where
  "save_data book filename fs = fs(filename \<mapsto> pickle_AddressBook book)"

definition load_data :: "ustring \<Rightarrow> files \<Rightarrow> exn + AddressBook" where
  "load_data filename fs =
     (case fs filename of
        Some f \<Rightarrow>
          (case unpickle_AddressBook f of
             Some book \<Rightarrow> Inr book
           | None \<Rightarrow> Inl (UnpicklingError (ustr ''not an address book'')))
      | None \<Rightarrow> Inr [])"

text \<open>
  What holds of every book of the program: the keys of a dictionary differ from one
  another, and a \<open>datetime.date\<close> is a date of the calendar.
\<close>

definition wf_AddressBook :: "AddressBook \<Rightarrow> bool" where
  "wf_AddressBook book =
     (distinct (map fst book)
      \<and> list_all (\<lambda>kr. case birthday (snd kr) of None \<Rightarrow> True | Some t \<Rightarrow> valid_date t) book)"

section \<open>Commands\<close>

text \<open>
  A command returns its value or raises, and in both cases leaves the book as it has
  changed it so far. \<open>input_error\<close> turns an exception into its text.
\<close>

type_synonym command_result = "(exn + ustring) \<times> AddressBook"

definition input_error :: "command_result \<Rightarrow> ustring \<times> AddressBook" where
  "input_error res = (case fst res of Inl e \<Rightarrow> exn_str e | Inr m \<Rightarrow> m, snd res)"

text \<open>
  The body of \<open>add_contact\<close>. \<open>book.add_record\<close> is what puts a new record into the book.
  The record found, or the one just added, is the object the book holds under the name,
  so \<open>record.add_phone\<close> changes that entry (\<open>mutate_record\<close>).
\<close>

definition add_contact_body :: "ustring list \<Rightarrow> AddressBook \<Rightarrow> command_result" where
  "add_contact_body args book =
     (if length args < 2
      then (Inr (ustr ''Please provide both name and phone number.''), book)
      else
        let n = args ! 0; phone = args ! 1;
            add_the_phone = (\<lambda>r message book'.
              if phone \<noteq> []
              then (case add_phone r phone of
                      Inl e \<Rightarrow> (Inl e, book')
                    | Inr r' \<Rightarrow> (Inr message, mutate_record n r' book'))
              else (Inr message, book'))
        in case find_contact book n of
             Str s \<Rightarrow>
               if s = ustr ''Contact not found.''
               then let r = Record_init n
                    in add_the_phone r (ustr ''Contact added.'') (snd (add_record book r))
               else (Inl (AttributeError (ustr ''str object has no attribute add_phone'')), book)
           | Rec r \<Rightarrow> add_the_phone r (ustr ''Contact updated.'') book)"

definition add_contact :: "ustring list \<Rightarrow> AddressBook \<Rightarrow> ustring \<times> AddressBook" where
  "add_contact args book = input_error (add_contact_body args book)"

definition add_birthday_body :: "ustring list \<Rightarrow> AddressBook \<Rightarrow> command_result" where
  "add_birthday_body args book =
     (if length args < 2
      then (Inr (ustr ''Please provide both name and birthday date in the format DD.MM.YYYY.''),
            book)
      else
        let n = args ! 0; b = args ! 1
        in case find_contact book n of
             Str s \<Rightarrow>
               if s = ustr ''Contact not found.''
               then (Inr (ustr ''Contact not found.''), book)
               else (Inl (AttributeError (ustr ''str object has no attribute birthday'')), book)
           | Rec r \<Rightarrow>
               (case birthday r of
                  Some old \<Rightarrow>
                    (case Record_add_birthday r b of
                       Inl e \<Rightarrow> (Inl e, book)
                     | Inr r' \<Rightarrow> (Inr (ustr ''Birthday for '' @ n @ ustr '' updated.''),
                                  mutate_record n r' book))
                | None \<Rightarrow>
                    (case Record_add_birthday r b of
                       Inl e \<Rightarrow> (Inl e, book)
                     | Inr r' \<Rightarrow> (Inr (ustr ''Birthday for '' @ n @ ustr '' added.''),
                                  mutate_record n r' book))))"

definition add_birthday :: "ustring list \<Rightarrow> AddressBook \<Rightarrow> ustring \<times> AddressBook" where
  "add_birthday args book = input_error (add_birthday_body args book)"

section \<open>The properties in the words of the specification\<close>

text \<open>Exactly ten characters \<open>0\<close>..\<open>9\<close>.\<close>

definition spec_ten_digits :: "ustring \<Rightarrow> bool" where
  "spec_ten_digits s = (length s = 10 \<and> list_all is_ascii_digit s)"

text \<open>The strict pattern \<open>DD.MM.YYYY\<close>: two digits, a dot, two digits, a dot, four digits.\<close>

definition spec_DD_MM_YYYY :: "ustring \<Rightarrow> bool" where
  "spec_DD_MM_YYYY s =
     (length s = 10 \<and> s ! 2 = ch CHR ''.'' \<and> s ! 5 = ch CHR ''.''
      \<and> list_all is_ascii_digit [s ! 0, s ! 1, s ! 3, s ! 4, s ! 6, s ! 7, s ! 8, s ! 9])"

text \<open>
  What one record contributes to the list of upcoming birthdays: one entry when it has a
  birthday and the number of days is from 0 to 7, nothing otherwise.
\<close>

definition upcoming_entry :: "bool \<Rightarrow> date \<Rightarrow> Record \<Rightarrow> upcoming list" where
  "upcoming_entry pad today r =
     (case birthday r of
        None \<Rightarrow> []
      | Some b \<Rightarrow>
          (case days_to_birthday today r of
             Inr (Some n) \<Rightarrow>
               if 0 \<le> n \<and> n \<le> 7
               then [\<lparr>u_name = name r, u_birthday = b,
                      congratulation_date =
                        strftime_d_m_Y pad (fromordinal (nat (int (toordinal today) + n)))\<rparr>]
               else []
           | _ \<Rightarrow> []))"

section \<open>The date strings \<open>strptime\<close> accepts\<close>

text \<open>
  The three fields of the pattern for \<open>"%d.%m.%Y"\<close>, each as the set of strings its group
  matches. A day is \<open>30\<close> or \<open>31\<close>, \<open>1\<close> or \<open>2\<close> followed by any decimal digit, \<open>0\<close> or a blank
  followed by \<open>1\<close>..\<open>9\<close>, or \<open>1\<close>..\<open>9\<close> alone; a month is \<open>10\<close>..\<open>12\<close>, \<open>0\<close> followed by
  \<open>1\<close>..\<open>9\<close>, or \<open>1\<close>..\<open>9\<close> alone; a year is any four decimal digits.
\<close>

definition day_text :: "ustring \<Rightarrow> bool" where
  "day_text D =
     (case D of
        [a] \<Rightarrow> 49 \<le> a \<and> a \<le> 57
      | [a, b] \<Rightarrow> (a = 51 \<and> 48 \<le> b \<and> b \<le> 49) \<or> (49 \<le> a \<and> a \<le> 50 \<and> is_Nd b)
                  \<or> (a = 48 \<and> 49 \<le> b \<and> b \<le> 57) \<or> (a = 32 \<and> 49 \<le> b \<and> b \<le> 57)
      | _ \<Rightarrow> False)"

definition month_text :: "ustring \<Rightarrow> bool" where
  "month_text M =
     (case M of
        [a] \<Rightarrow> 49 \<le> a \<and> a \<le> 57
      | [a, b] \<Rightarrow> (a = 49 \<and> 48 \<le> b \<and> b \<le> 50) \<or> (a = 48 \<and> 49 \<le> b \<and> b \<le> 57)
      | _ \<Rightarrow> False)"

definition year_text :: "ustring \<Rightarrow> bool" where
  "year_text Y = (length Y = 4 \<and> list_all is_Nd Y)"

section \<open>Phone validation\<close>

lemma rmatch_digits:
  "rmatch (seqs (replicate n (Chr Digit))) s =
     (if n \<le> length s \<and> list_all is_Nd (take n s) then [([], drop n s)] else [])"
proof (induction n arbitrary: s)
  case 0
  show ?case by simp
next
  case (Suc n)
  show ?case
  proof (cases s)
    case Nil
    then show ?thesis by simp
  next
    case (Cons c r)
    show ?thesis unfolding Cons by (simp add: Suc.IH)
  qed
qed

lemma fullmatch_phone_regex:
  "re_fullmatch phone_regex s = (if length s = 10 \<and> list_all is_Nd s then Some [] else None)"
proof (cases "length s = 10")
  case True
  then show ?thesis
    by (simp add: re_fullmatch_def phone_regex_def rmatch_digits)
next
  case False
  show ?thesis
  proof (cases "10 \<le> length s")
    case True
    with False have "drop 10 s \<noteq> []" by simp
    with False show ?thesis
      by (simp add: re_fullmatch_def phone_regex_def rmatch_digits)
  next
    case False
    then show ?thesis
      by (simp add: re_fullmatch_def phone_regex_def rmatch_digits)
  qed
qed

lemma is_Nd_ascii: "is_ascii_digit c \<Longrightarrow> is_Nd c"
  by (simp add: is_ascii_digit_def is_Nd_def Nd_zeros_def)

text \<open>
  C3, as the code has it: \<open>Phone\<close> succeeds exactly on the strings of ten characters that
  are all Unicode decimal digits (category Nd, which contains \<open>0\<close>..\<open>9\<close>), and then keeps
  the string unchanged; on every other string it fails with
  \<open>"Phone number must contain exactly 10 digits."\<close>.
\<close>

theorem Phone_accepts_ten_Nd:
  "Phone s = (if length s = 10 \<and> list_all is_Nd s then Inr s
              else Inl (ValueError (ustr ''Phone number must contain exactly 10 digits.'')))"
  by (simp add: Phone_def fullmatch_phone_regex)

theorem Phone_accepts_ten_Nd_witness:
  "Phone (ustr ''0123456789'') = Inr (ustr ''0123456789'')"
  using Phone_accepts_ten_Nd [of "ustr ''0123456789''"]
  by (simp add: ustr_def is_Nd_def Nd_zeros_def)

text \<open>
  C3 as stated fails: the ten Arabic-Indic digits U+0660..U+0669 are accepted, and they
  are not the characters \<open>0\<close>..\<open>9\<close>.
\<close>

theorem Phone_arabic_indic_counterexample:
  "Phone [1632, 1633, 1634, 1635, 1636, 1637, 1638, 1639, 1640, 1641]
     = Inr [1632, 1633, 1634, 1635, 1636, 1637, 1638, 1639, 1640, 1641]
   \<and> \<not> spec_ten_digits [1632, 1633, 1634, 1635, 1636, 1637, 1638, 1639, 1640, 1641]"
  by (simp add: Phone_def fullmatch_phone_regex is_Nd_def Nd_zeros_def spec_ten_digits_def
      is_ascii_digit_def)

section \<open>Birthday validation\<close>

lemma date_new_error: "date_new y m d = Inl e \<Longrightarrow> \<exists>msg. e = ValueError msg"
  by (auto simp: date_new_def split: if_splits)

lemma strptime_error: "strptime_d_m_Y s = Inl e \<Longrightarrow> \<exists>msg. e = ValueError msg"
  by (auto simp: strptime_d_m_Y_def split: option.splits prod.splits if_splits
      dest: date_new_error)

lemma Birthday_error:
  "Birthday s = Inl e \<Longrightarrow> e = ValueError (ustr ''Invalid date format. Use DD.MM.YYYY'')"
  by (auto simp: Birthday_def split: sum.splits exn.splits dest: strptime_error)

lemma not_Nd_46: "\<not> is_Nd 46"
  by (simp add: is_Nd_def Nd_zeros_def)

lemma rmatch_Seq_mem:
  "(g, rest) \<in> set (rmatch (Seq a b) s) \<longleftrightarrow>
     (\<exists>g1 r1 g2. (g1, r1) \<in> set (rmatch a s) \<and> (g2, rest) \<in> set (rmatch b r1) \<and> g = g1 @ g2)"
  by (auto simp: split_def) force+

lemma rmatch_Chr_mem:
  "(g, rest) \<in> set (rmatch (Chr cs) s) \<longleftrightarrow> (\<exists>c. s = c # rest \<and> cset_mem cs c \<and> g = [])"
  by (cases s) auto

lemma rmatch_Alt_mem:
  "(g, rest) \<in> set (rmatch (Alt a b) s) \<longleftrightarrow>
     (g, rest) \<in> set (rmatch a s) \<or> (g, rest) \<in> set (rmatch b s)"
  by simp

lemma rmatch_Eps_mem: "(g, rest) \<in> set (rmatch Eps s) \<longleftrightarrow> g = [] \<and> rest = s"
  by auto

lemma rmatch_Group_mem:
  "(g, rest) \<in> set (rmatch (Group n a) s) \<longleftrightarrow>
     (\<exists>g'. (g', rest) \<in> set (rmatch a s) \<and> g = (n, take (length s - length rest) s) # g')"
  by auto

lemmas rmatch_mem = rmatch_Seq_mem rmatch_Chr_mem rmatch_Alt_mem rmatch_Eps_mem rmatch_Group_mem

lemma day_regex_mem:
  "(g, rest) \<in> set (rmatch day_regex s) \<longleftrightarrow>
     (\<exists>D. s = D @ rest \<and> day_text D \<and> g = [(''d'', D)])"
  (is "?L \<longleftrightarrow> ?R")
proof
  assume ?L
  then show ?R
    unfolding day_regex_def alts.simps rmatch_mem ch_def
    by (auto simp: day_text_def)
next
  assume ?R
  then obtain D where D: "s = D @ rest" "day_text D" "g = [(''d'', D)]" by blast
  from D(2) consider a where "D = [a]" | a b where "D = [a, b]"
    by (auto simp: day_text_def split: list.splits)
  then show ?L
  proof cases
    case 1
    with D show ?thesis
      unfolding day_regex_def alts.simps rmatch_mem ch_def
      by (auto simp: day_text_def)
  next
    case 2
    with D show ?thesis
      unfolding day_regex_def alts.simps rmatch_mem ch_def
      by (auto simp: day_text_def)
  qed
qed

lemma month_regex_mem:
  "(g, rest) \<in> set (rmatch month_regex s) \<longleftrightarrow>
     (\<exists>M. s = M @ rest \<and> month_text M \<and> g = [(''m'', M)])"
  (is "?L \<longleftrightarrow> ?R")
proof
  assume ?L
  then show ?R
    unfolding month_regex_def alts.simps rmatch_mem ch_def
    by (auto simp: month_text_def)
next
  assume ?R
  then obtain M where M: "s = M @ rest" "month_text M" "g = [(''m'', M)]" by blast
  from M(2) consider a where "M = [a]" | a b where "M = [a, b]"
    by (auto simp: month_text_def split: list.splits)
  then show ?L
  proof cases
    case 1
    with M show ?thesis
      unfolding month_regex_def alts.simps rmatch_mem ch_def
      by (auto simp: month_text_def)
  next
    case 2
    with M show ?thesis
      unfolding month_regex_def alts.simps rmatch_mem ch_def
      by (auto simp: month_text_def)
  qed
qed

lemma year_text_iff:
  "year_text Y \<longleftrightarrow> (\<exists>a b c d. Y = [a, b, c, d] \<and> is_Nd a \<and> is_Nd b \<and> is_Nd c \<and> is_Nd d)"
proof
  assume y: "year_text Y"
  then have "length Y = 4" by (simp add: year_text_def)
  then obtain a b c d where "Y = [a, b, c, d]"
    by (auto simp: length_Suc_conv numeral_eq_Suc)
  with y show "\<exists>a b c d. Y = [a, b, c, d] \<and> is_Nd a \<and> is_Nd b \<and> is_Nd c \<and> is_Nd d"
    by (auto simp: year_text_def)
next
  assume "\<exists>a b c d. Y = [a, b, c, d] \<and> is_Nd a \<and> is_Nd b \<and> is_Nd c \<and> is_Nd d"
  then show "year_text Y" by (auto simp: year_text_def)
qed

lemma year_regex_mem:
  "(g, rest) \<in> set (rmatch year_regex s) \<longleftrightarrow>
     (\<exists>Y. s = Y @ rest \<and> year_text Y \<and> g = [(''Y'', Y)])"
  unfolding year_regex_def seqs.simps rmatch_mem year_text_iff
  by auto

lemma rmatch_SeqI:
  "(g1, r1) \<in> set (rmatch a s) \<Longrightarrow> (g2, rest) \<in> set (rmatch b r1)
     \<Longrightarrow> (g1 @ g2, rest) \<in> set (rmatch (Seq a b) s)"
  unfolding rmatch_Seq_mem by blast

lemma rmatch_LitI: "([], r) \<in> set (rmatch (Chr (Lit c)) (c # r))"
  by simp

lemma rmatch_EpsI: "([], s) \<in> set (rmatch Eps s)"
  by simp

lemma format_regex_memD:
  assumes "(g, rest) \<in> set (rmatch format_regex s)"
  shows "\<exists>D M Y. s = D @ 46 # M @ 46 # Y @ rest \<and> day_text D \<and> month_text M \<and> year_text Y
        \<and> g = [(''d'', D), (''m'', M), (''Y'', Y)]"
  using assms
  unfolding format_regex_def seqs.simps rmatch_Seq_mem rmatch_Eps_mem rmatch_Chr_mem
    day_regex_mem month_regex_mem year_regex_mem ch_def
  by auto

lemma format_regex_memI:
  assumes "day_text D" "month_text M" "year_text Y"
  shows "([(''d'', D), (''m'', M), (''Y'', Y)], rest)
           \<in> set (rmatch format_regex (D @ 46 # M @ 46 # Y @ rest))"
proof -
  have d: "([(''d'', D)], 46 # M @ 46 # Y @ rest)
             \<in> set (rmatch day_regex (D @ 46 # M @ 46 # Y @ rest))"
    unfolding day_regex_mem using assms(1) by blast
  have m: "([(''m'', M)], 46 # Y @ rest) \<in> set (rmatch month_regex (M @ 46 # Y @ rest))"
    unfolding month_regex_mem using assms(2) by blast
  have y: "([(''Y'', Y)], rest) \<in> set (rmatch year_regex (Y @ rest))"
    unfolding year_regex_mem using assms(3) by blast
  from rmatch_SeqI [OF d rmatch_SeqI [OF rmatch_LitI rmatch_SeqI [OF m
         rmatch_SeqI [OF rmatch_LitI rmatch_SeqI [OF y rmatch_EpsI]]]]]
  show ?thesis
    by (simp add: format_regex_def ch_def)
qed

lemma split_at_dot:
  "46 \<notin> set D \<Longrightarrow> 46 \<notin> set D' \<Longrightarrow> D @ 46 # x = D' @ 46 # x' \<Longrightarrow> D = D' \<and> x = x'"
proof (induction D arbitrary: D')
  case Nil
  then show ?case by (cases D') auto
next
  case (Cons a D)
  then show ?case by (cases D') auto
qed

lemma day_text_no_dot: "day_text D \<Longrightarrow> 46 \<notin> set D"
  by (auto simp: day_text_def not_Nd_46 split: list.splits)

lemma month_text_no_dot: "month_text M \<Longrightarrow> 46 \<notin> set M"
  by (auto simp: month_text_def split: list.splits)

lemma date_text_unique:
  assumes "D @ 46 # M @ 46 # Y @ rest = D' @ 46 # M' @ 46 # Y' @ rest'"
    and "day_text D" "month_text M" "year_text Y" "day_text D'" "month_text M'" "year_text Y'"
  shows "D = D' \<and> M = M' \<and> Y = Y' \<and> rest = rest'"
proof -
  from split_at_dot [OF day_text_no_dot [OF assms(2)] day_text_no_dot [OF assms(5)] assms(1)]
  have 1: "D = D'" "M @ 46 # Y @ rest = M' @ 46 # Y' @ rest'" by simp_all
  from split_at_dot [OF month_text_no_dot [OF assms(3)] month_text_no_dot [OF assms(6)] 1(2)]
  have 2: "M = M'" "Y @ rest = Y' @ rest'" by simp_all
  from assms(4,7) have "length Y = length Y'" by (simp add: year_text_def)
  with 2(2) have "Y = Y' \<and> rest = rest'" by simp
  with 1(1) 2(1) show ?thesis by simp
qed

text \<open>What \<open>strptime\<close> returns on a string of the three fields.\<close>

lemma strptime_on_date_text:
  assumes "day_text D" "month_text M" "year_text Y"
  shows "strptime_d_m_Y (D @ 46 # M @ 46 # Y @ rest) =
           (if rest \<noteq> [] then Inl (ValueError (ustr ''unconverted data remains: '' @ rest))
            else date_new (py_int Y) (py_int M) (py_int D))"
proof -
  let ?s = "D @ 46 # M @ 46 # Y @ rest"
  from format_regex_memI [OF assms, of rest]
  obtain x xs where xs: "rmatch format_regex ?s = x # xs"
    by (cases "rmatch format_regex ?s") auto
  then have "(fst x, snd x) \<in> set (rmatch format_regex ?s)" by simp
  from format_regex_memD [OF this] obtain D' M' Y'
    where *: "?s = D' @ 46 # M' @ 46 # Y' @ snd x" "day_text D'" "month_text M'" "year_text Y'"
      "fst x = [(''d'', D'), (''m'', M'), (''Y'', Y')]" by blast
  from date_text_unique [OF *(1) assms *(2,3,4)] *(5)
  have "x = ([(''d'', D), (''m'', M), (''Y'', Y)], rest)"
    by (cases x) simp
  with xs show ?thesis
    by (simp add: strptime_d_m_Y_def re_match_def group_def)
qed

lemma strptime_no_date_text:
  assumes "\<not> (\<exists>D M Y rest. s = D @ 46 # M @ 46 # Y @ rest \<and> day_text D \<and> month_text M \<and> year_text Y)"
  shows "strptime_d_m_Y s = Inl (ValueError (ustr ''time data does not match format''))"
proof -
  have "rmatch format_regex s = []"
  proof (cases "rmatch format_regex s")
    case Nil
    then show ?thesis .
  next
    case (Cons x xs)
    then have "(fst x, snd x) \<in> set (rmatch format_regex s)" by simp
    from format_regex_memD [OF this] assms show ?thesis by blast
  qed
  then show ?thesis by (simp add: strptime_d_m_Y_def re_match_def)
qed

lemma Birthday_eq_strptime: "Birthday s = Inr t \<longleftrightarrow> strptime_d_m_Y s = Inr t"
  by (auto simp: Birthday_def split: sum.splits exn.splits)

lemma Birthday_accepts_iff:
  "Birthday s = Inr t \<longleftrightarrow>
     (\<exists>D M Y. s = D @ 46 # M @ 46 # Y \<and> day_text D \<and> month_text M \<and> year_text Y
        \<and> date_new (py_int Y) (py_int M) (py_int D) = Inr t)"
proof (cases "\<exists>D M Y rest. s = D @ 46 # M @ 46 # Y @ rest \<and> day_text D \<and> month_text M \<and> year_text Y")
  case False
  from strptime_no_date_text [OF False] have "Birthday s \<noteq> Inr t"
    by (simp add: Birthday_eq_strptime)
  moreover from False have "\<not> (\<exists>D M Y. s = D @ 46 # M @ 46 # Y \<and> day_text D \<and> month_text M
      \<and> year_text Y \<and> date_new (py_int Y) (py_int M) (py_int D) = Inr t)"
    by (metis append_Nil2)
  ultimately show ?thesis by blast
next
  case True
  then obtain D M Y rest where s: "s = D @ 46 # M @ 46 # Y @ rest"
    and f: "day_text D" "month_text M" "year_text Y" by blast
  show ?thesis
  proof
    assume "Birthday s = Inr t"
    then have "strptime_d_m_Y s = Inr t" by (simp add: Birthday_eq_strptime)
    with strptime_on_date_text [OF f, of rest] s
    have "rest = []" "date_new (py_int Y) (py_int M) (py_int D) = Inr t"
      by (auto split: if_splits)
    with s f show "\<exists>D M Y. s = D @ 46 # M @ 46 # Y \<and> day_text D \<and> month_text M \<and> year_text Y
        \<and> date_new (py_int Y) (py_int M) (py_int D) = Inr t" by auto
  next
    assume "\<exists>D M Y. s = D @ 46 # M @ 46 # Y \<and> day_text D \<and> month_text M \<and> year_text Y
        \<and> date_new (py_int Y) (py_int M) (py_int D) = Inr t"
    then obtain D' M' Y' where s': "s = D' @ 46 # M' @ 46 # Y' @ []"
      and f': "day_text D'" "month_text M'" "year_text Y'"
      and d: "date_new (py_int Y') (py_int M') (py_int D') = Inr t" by auto
    from strptime_on_date_text [OF f', of "[]"] s' d
    show "Birthday s = Inr t" by (simp add: Birthday_eq_strptime)
  qed
qed

lemma digit_value_ascii: "is_ascii_digit c \<Longrightarrow> digit_value c = c - 48"
  by (simp add: is_ascii_digit_def digit_value_def Nd_zeros_def)

lemma ascii_digit_shape: "is_ascii_digit c \<Longrightarrow> \<exists>x<10. c = 48 + x"
proof -
  assume "is_ascii_digit c"
  then have "c - 48 < 10 \<and> c = 48 + (c - 48)" unfolding is_ascii_digit_def by arith
  then show ?thesis by blast
qed

lemma py_int_2: "x < 10 \<Longrightarrow> y < 10 \<Longrightarrow> py_int [48 + x, 48 + y] = 10 * x + y"
  by (simp add: py_int_def digit_value_ascii is_ascii_digit_def)

lemma py_int_4:
  "x < 10 \<Longrightarrow> y < 10 \<Longrightarrow> z < 10 \<Longrightarrow> w < 10 \<Longrightarrow>
     py_int [48 + x, 48 + y, 48 + z, 48 + w] = 10 * (10 * (10 * x + y) + z) + w"
  by (simp add: py_int_def digit_value_ascii is_ascii_digit_def)

lemma two_digits_back: "x < 10 \<Longrightarrow> y < 10 \<Longrightarrow> two_digits (10 * x + y) = [48 + x, 48 + y]"
  by (simp add: two_digits_def)

lemma div_mod_10: "w < 10 \<Longrightarrow> (10 * q + w) div 10 = q \<and> (10 * q + w) mod 10 = (w::nat)"
  by simp

lemma four_digits_back:
  assumes "x < 10" "y < 10" "z < 10" "w < 10"
  shows "four_digits (10 * (10 * (10 * x + y) + z) + w) = [48 + x, 48 + y, 48 + z, 48 + w]"
proof -
  define q2 where "q2 = 10 * x + y"
  define q3 where "q3 = 10 * q2 + z"
  define n where "n = 10 * q3 + w"
  have 1: "n mod 10 = w" "n div 10 = q3"
    unfolding n_def using div_mod_10 [OF assms(4), of q3] by blast+
  have 2: "q3 mod 10 = z" "q3 div 10 = q2"
    unfolding q3_def using div_mod_10 [OF assms(3), of q2] by blast+
  have 3: "q2 mod 10 = y" "q2 div 10 = x"
    unfolding q2_def using div_mod_10 [OF assms(2), of x] by blast+
  have 4: "n div 100 = q2"
    using div_mult2_eq [of n 10 10] 1 2 by simp
  have 5: "n div 1000 = x"
    using div_mult2_eq [of n 100 10] 4 3 by simp
  have "four_digits n = [48 + x, 48 + y, 48 + z, 48 + w]"
    unfolding four_digits_def 1 2 3 4 5 using assms(1) by simp
  then show ?thesis
    unfolding n_def q3_def q2_def .
qed

lemma str_nat_step: "1 \<le> q \<Longrightarrow> w < 10 \<Longrightarrow> str_nat (10 * q + w) = str_nat q @ [48 + w]"
  by (subst str_nat.simps) simp

lemma str_nat_back:
  assumes "1 \<le> x" "x < 10" "y < 10" "z < 10" "w < 10"
  shows "str_nat (10 * (10 * (10 * x + y) + z) + w) = [48 + x, 48 + y, 48 + z, 48 + w]"
proof -
  have a: "str_nat x = [48 + x]"
    using assms by (subst str_nat.simps) simp
  have b: "str_nat (10 * x + y) = str_nat x @ [48 + y]"
    by (rule str_nat_step) (use assms in simp_all)
  have c: "str_nat (10 * (10 * x + y) + z) = str_nat (10 * x + y) @ [48 + z]"
    by (rule str_nat_step) (use assms in simp_all)
  have d: "str_nat (10 * (10 * (10 * x + y) + z) + w) = str_nat (10 * (10 * x + y) + z) @ [48 + w]"
    by (rule str_nat_step) (use assms in simp_all)
  show ?thesis unfolding d c b a by simp
qed

lemma spec_DD_MM_YYYY_shape:
  assumes "spec_DD_MM_YYYY s"
  obtains x1 x2 x3 x4 x5 x6 x7 x8 :: nat
  where "x1 < 10" "x2 < 10" "x3 < 10" "x4 < 10" "x5 < 10" "x6 < 10" "x7 < 10" "x8 < 10"
    and "s = [48 + x1, 48 + x2, 46, 48 + x3, 48 + x4, 46, 48 + x5, 48 + x6, 48 + x7, 48 + x8]"
proof -
  from assms have "length s = 10" by (simp add: spec_DD_MM_YYYY_def)
  then obtain c0 c1 c2 c3 c4 c5 c6 c7 c8 c9 where s: "s = [c0, c1, c2, c3, c4, c5, c6, c7, c8, c9]"
    by (auto simp: length_Suc_conv numeral_eq_Suc)
  from assms have d: "c2 = 46" "c5 = 46" "is_ascii_digit c0" "is_ascii_digit c1"
      "is_ascii_digit c3" "is_ascii_digit c4" "is_ascii_digit c6" "is_ascii_digit c7"
      "is_ascii_digit c8" "is_ascii_digit c9"
    unfolding s by (simp_all add: spec_DD_MM_YYYY_def ch_def)
  from ascii_digit_shape [OF d(3)] obtain x1 where 1: "x1 < 10" "c0 = 48 + x1" by blast
  from ascii_digit_shape [OF d(4)] obtain x2 where 2: "x2 < 10" "c1 = 48 + x2" by blast
  from ascii_digit_shape [OF d(5)] obtain x3 where 3: "x3 < 10" "c3 = 48 + x3" by blast
  from ascii_digit_shape [OF d(6)] obtain x4 where 4: "x4 < 10" "c4 = 48 + x4" by blast
  from ascii_digit_shape [OF d(7)] obtain x5 where 5: "x5 < 10" "c6 = 48 + x5" by blast
  from ascii_digit_shape [OF d(8)] obtain x6 where 6: "x6 < 10" "c7 = 48 + x6" by blast
  from ascii_digit_shape [OF d(9)] obtain x7 where 7: "x7 < 10" "c8 = 48 + x7" by blast
  from ascii_digit_shape [OF d(10)] obtain x8 where 8: "x8 < 10" "c9 = 48 + x8" by blast
  show thesis
    by (rule that [of x1 x2 x3 x4 x5 x6 x7 x8])
       (simp_all add: s d(1,2) 1 2 3 4 5 6 7 8)
qed

lemma strict_fields:
  fixes D M Y :: ustring
  assumes "[48 + x1, 48 + x2, 46, 48 + x3, 48 + x4, 46, 48 + x5, 48 + x6, 48 + x7, 48 + x8]
             = D @ 46 # M @ 46 # Y"
    and "46 \<notin> set D" "46 \<notin> set M"
  shows "D = [48 + x1, 48 + x2] \<and> M = [48 + x3, 48 + x4] \<and> Y = [48 + x5, 48 + x6, 48 + x7, 48 + x8]"
proof -
  have a: "[48 + x1, 48 + x2] @ 46 # [48 + x3, 48 + x4, 46, 48 + x5, 48 + x6, 48 + x7, 48 + x8]
          = D @ 46 # (M @ 46 # Y)" using assms(1) by simp
  have b: "46 \<notin> set [48 + x1, 48 + x2]" by simp
  from split_at_dot [OF b assms(2) a]
  have 1: "D = [48 + x1, 48 + x2]"
    "[48 + x3, 48 + x4] @ 46 # [48 + x5, 48 + x6, 48 + x7, 48 + x8] = M @ 46 # Y"
    by simp_all
  have c: "46 \<notin> set [48 + x3, 48 + x4]" by simp
  from split_at_dot [OF c assms(3) 1(2)] 1(1) show ?thesis by simp
qed

lemma days_in_month_le_31: "m \<le> 12 \<Longrightarrow> days_in_month y m \<le> 31"
proof -
  assume "m \<le> 12"
  then have "m = 0 \<or> m = 1 \<or> m = 2 \<or> m = 3 \<or> m = 4 \<or> m = 5 \<or> m = 6 \<or> m = 7 \<or> m = 8
      \<or> m = 9 \<or> m = 10 \<or> m = 11 \<or> m = 12" by arith
  then show ?thesis by (auto simp: days_in_month_def)
qed

lemma date_new_Inr:
  "date_new y m d = Inr t \<longleftrightarrow>
     (1 \<le> y \<and> y \<le> 9999 \<and> 1 \<le> m \<and> m \<le> 12 \<and> 1 \<le> d \<and> d \<le> days_in_month y m
       \<and> t = \<lparr>year = y, month = m, day = d\<rparr>)"
  by (auto simp: date_new_def)

lemma day_text_strict:
  assumes "x1 < 10" "x2 < 10" "1 \<le> 10 * x1 + x2" "10 * x1 + x2 \<le> 31"
  shows "day_text [48 + x1, 48 + x2]"
proof -
  from assms have "x1 = 0 \<or> x1 = 1 \<or> x1 = 2 \<or> x1 = 3" by arith
  moreover have "is_Nd (48 + x2)" using assms(2) by (intro is_Nd_ascii) (simp add: is_ascii_digit_def)
  ultimately show ?thesis using assms by (auto simp: day_text_def)
qed

lemma month_text_strict:
  assumes "x3 < 10" "x4 < 10" "1 \<le> 10 * x3 + x4" "10 * x3 + x4 \<le> 12"
  shows "month_text [48 + x3, 48 + x4]"
proof -
  from assms have "x3 = 0 \<or> x3 = 1" by arith
  then show ?thesis using assms by (auto simp: month_text_def)
qed

lemma year_text_strict:
  assumes "x5 < 10" "x6 < 10" "x7 < 10" "x8 < 10"
  shows "year_text [48 + x5, 48 + x6, 48 + x7, 48 + x8]"
  using assms by (simp add: year_text_def is_Nd_ascii is_ascii_digit_def)

lemma Birthday_strict:
  assumes "spec_DD_MM_YYYY s"
  shows "Birthday s = Inr t \<longleftrightarrow>
           date_new (py_int (drop 6 s)) (py_int (take 2 (drop 3 s))) (py_int (take 2 s)) = Inr t"
proof -
  from assms obtain x1 x2 x3 x4 x5 x6 x7 x8
    where x: "x1 < 10" "x2 < 10" "x3 < 10" "x4 < 10" "x5 < 10" "x6 < 10" "x7 < 10" "x8 < 10"
      and s: "s = [48 + x1, 48 + x2, 46, 48 + x3, 48 + x4, 46, 48 + x5, 48 + x6, 48 + x7, 48 + x8]"
    by (rule spec_DD_MM_YYYY_shape)
  let ?D = "[48 + x1, 48 + x2]" and ?M = "[48 + x3, 48 + x4]"
    and ?Y = "[48 + x5, 48 + x6, 48 + x7, 48 + x8]"
  have sl: "drop 6 s = ?Y" "take 2 (drop 3 s) = ?M" "take 2 s = ?D" "s = ?D @ 46 # ?M @ 46 # ?Y"
    unfolding s by simp_all
  show ?thesis
  proof
    assume "Birthday s = Inr t"
    then obtain D M Y where *: "s = D @ 46 # M @ 46 # Y" "day_text D" "month_text M"
        "date_new (py_int Y) (py_int M) (py_int D) = Inr t"
      unfolding Birthday_accepts_iff by blast
    from strict_fields [OF * (1) [unfolded s] day_text_no_dot [OF *(2)] month_text_no_dot [OF *(3)]]
      *(4) sl
    show "date_new (py_int (drop 6 s)) (py_int (take 2 (drop 3 s))) (py_int (take 2 s)) = Inr t"
      by simp
  next
    assume d: "date_new (py_int (drop 6 s)) (py_int (take 2 (drop 3 s))) (py_int (take 2 s)) = Inr t"
    then have d': "date_new (py_int ?Y) (py_int ?M) (py_int ?D) = Inr t"
      unfolding sl(1,2,3) .
    then have r: "1 \<le> py_int ?M" "py_int ?M \<le> 12" "1 \<le> py_int ?D"
        "py_int ?D \<le> days_in_month (py_int ?Y) (py_int ?M)"
      unfolding date_new_Inr by simp_all
    from days_in_month_le_31 [OF r(2), of "py_int ?Y"] r(4) have r5: "py_int ?D \<le> 31" by simp
    have pD: "py_int ?D = 10 * x1 + x2" by (rule py_int_2) (rule x)+
    have pM: "py_int ?M = 10 * x3 + x4" by (rule py_int_2) (rule x)+
    have 1: "day_text ?D"
      by (rule day_text_strict) (use x r(3) r5 pD in simp_all)
    have 2: "month_text ?M"
      by (rule month_text_strict) (use x r(1,2) pM in simp_all)
    have 3: "year_text ?Y"
      by (rule year_text_strict) (rule x)+
    have "\<exists>D M Y. s = D @ 46 # M @ 46 # Y \<and> day_text D \<and> month_text M \<and> year_text Y
        \<and> date_new (py_int Y) (py_int M) (py_int D) = Inr t"
      using sl(4) 1 2 3 d' by (intro exI [of _ ?D] exI [of _ ?M] exI [of _ ?Y]) simp
    then show "Birthday s = Inr t"
      unfolding Birthday_accepts_iff .
  qed
qed

lemma Birthday_str_strict:
  assumes "spec_DD_MM_YYYY s" "Birthday s = Inr t" "pad \<or> 1000 \<le> year t"
  shows "Birthday_str pad t = s"
proof -
  from assms(1) obtain x1 x2 x3 x4 x5 x6 x7 x8
    where x: "x1 < 10" "x2 < 10" "x3 < 10" "x4 < 10" "x5 < 10" "x6 < 10" "x7 < 10" "x8 < 10"
      and s: "s = [48 + x1, 48 + x2, 46, 48 + x3, 48 + x4, 46, 48 + x5, 48 + x6, 48 + x7, 48 + x8]"
    by (rule spec_DD_MM_YYYY_shape)
  from assms(2) have "date_new (py_int (drop 6 s)) (py_int (take 2 (drop 3 s))) (py_int (take 2 s)) = Inr t"
    unfolding Birthday_strict [OF assms(1)] .
  then have "date_new (py_int [48 + x5, 48 + x6, 48 + x7, 48 + x8]) (py_int [48 + x3, 48 + x4])
      (py_int [48 + x1, 48 + x2]) = Inr t"
    unfolding s by simp
  then have "date_new (10 * (10 * (10 * x5 + x6) + x7) + x8) (10 * x3 + x4) (10 * x1 + x2) = Inr t"
    unfolding py_int_2 [OF x(1,2)] py_int_2 [OF x(3,4)] py_int_4 [OF x(5,6,7,8)] .
  then have t: "t = \<lparr>year = 10 * (10 * (10 * x5 + x6) + x7) + x8, month = 10 * x3 + x4,
                    day = 10 * x1 + x2\<rparr>"
    unfolding date_new_Inr by blast
  have y: "(if pad then four_digits (year t) else str_nat (year t))
             = [48 + x5, 48 + x6, 48 + x7, 48 + x8]"
  proof (cases pad)
    case True
    then show ?thesis using four_digits_back [OF x(5,6,7,8)] by (simp add: t)
  next
    case False
    with assms(3) have ge: "1000 \<le> 10 * (10 * (10 * x5 + x6) + x7) + x8" unfolding t by simp
    have "1 \<le> x5"
    proof (rule ccontr)
      assume "\<not> 1 \<le> x5"
      then have "x5 = 0" by simp
      with x(6,7,8) have "10 * (10 * (10 * x5 + x6) + x7) + x8 < 1000" by simp
      with ge show False by simp
    qed
    from str_nat_back [OF this x(5,6,7,8)] False show ?thesis by (simp add: t)
  qed
  have d: "two_digits (day t) = [48 + x1, 48 + x2]"
    using two_digits_back [OF x(1,2)] by (simp add: t)
  have m: "two_digits (month t) = [48 + x3, 48 + x4]"
    using two_digits_back [OF x(3,4)] by (simp add: t)
  show ?thesis
    unfolding Birthday_str_def strftime_d_m_Y_def y d m s by (simp add: ustr_def)
qed

text \<open>
  C2, as the code has it. \<open>Birthday\<close> succeeds exactly on the strings \<open>D.M.Y\<close> whose
  fields are a day, a month and a year as \<open>strptime\<close> reads them (\<open>day_text\<close>,
  \<open>month_text\<close>, \<open>year_text\<close>: one or two characters for the day and the month, four
  decimal digits for the year) and whose numbers are a date of the calendar; every other
  string fails with \<open>"Invalid date format. Use DD.MM.YYYY"\<close>. On a string of the strict
  pattern \<open>DD.MM.YYYY\<close> it succeeds exactly when the three numbers are a date of the
  calendar, and then the text of the birthday is the string again, for a year from 1000 on
  (for every year where \<open>strftime\<close> pads the year).
\<close>

theorem Birthday_accepts_lenient_dates:
  "(Birthday s = Inr t \<longleftrightarrow>
      (\<exists>D M Y. s = D @ ustr ''.'' @ M @ ustr ''.'' @ Y \<and> day_text D \<and> month_text M
         \<and> year_text Y \<and> date_new (py_int Y) (py_int M) (py_int D) = Inr t))
   \<and> ((\<forall>t'. Birthday s \<noteq> Inr t') \<longrightarrow>
        Birthday s = Inl (ValueError (ustr ''Invalid date format. Use DD.MM.YYYY'')))
   \<and> (spec_DD_MM_YYYY s \<longrightarrow>
        (Birthday s = Inr t \<longleftrightarrow>
           date_new (py_int (drop 6 s)) (py_int (take 2 (drop 3 s))) (py_int (take 2 s)) = Inr t))
   \<and> (spec_DD_MM_YYYY s \<and> Birthday s = Inr t \<and> (pad \<or> 1000 \<le> year t) \<longrightarrow>
        Birthday_str pad t = s)"
proof (intro conjI impI)
  show "Birthday s = Inr t \<longleftrightarrow>
      (\<exists>D M Y. s = D @ ustr ''.'' @ M @ ustr ''.'' @ Y \<and> day_text D \<and> month_text M
         \<and> year_text Y \<and> date_new (py_int Y) (py_int M) (py_int D) = Inr t)"
    unfolding Birthday_accepts_iff by (simp add: ustr_def)
next
  assume no: "\<forall>t'. Birthday s \<noteq> Inr t'"
  show "Birthday s = Inl (ValueError (ustr ''Invalid date format. Use DD.MM.YYYY''))"
  proof (cases "Birthday s")
    case (Inl e)
    with Birthday_error [OF Inl] show ?thesis by simp
  next
    case (Inr t')
    with no show ?thesis by simp
  qed
next
  assume "spec_DD_MM_YYYY s"
  then show "Birthday s = Inr t \<longleftrightarrow>
      date_new (py_int (drop 6 s)) (py_int (take 2 (drop 3 s))) (py_int (take 2 s)) = Inr t"
    by (rule Birthday_strict)
next
  assume "spec_DD_MM_YYYY s \<and> Birthday s = Inr t \<and> (pad \<or> 1000 \<le> year t)"
  then show "Birthday_str pad t = s"
    using Birthday_str_strict [of s t pad] by blast
qed

lemmas eval_defs = ustr_def ch_def is_Nd_def Nd_zeros_def py_int_def digit_value_def
  date_new_def days_in_month_def is_leap_def is_ascii_digit_def

theorem Birthday_accepts_lenient_dates_witness:
  "spec_DD_MM_YYYY (ustr ''15.03.1990'')
   \<and> Birthday (ustr ''15.03.1990'') = Inr \<lparr>year = 1990, month = 3, day = 15\<rparr>
   \<and> Birthday_str False \<lparr>year = 1990, month = 3, day = 15\<rparr> = ustr ''15.03.1990''"
proof -
  have 1: "spec_DD_MM_YYYY (ustr ''15.03.1990'')"
    by (simp add: spec_DD_MM_YYYY_def eval_defs)
  have 2: "date_new (py_int (drop 6 (ustr ''15.03.1990'')))
             (py_int (take 2 (drop 3 (ustr ''15.03.1990''))))
             (py_int (take 2 (ustr ''15.03.1990'')))
           = Inr \<lparr>year = 1990, month = 3, day = 15\<rparr>"
    by (simp add: eval_defs)
  from Birthday_accepts_lenient_dates
    [of "ustr ''15.03.1990''" "\<lparr>year = 1990, month = 3, day = 15\<rparr>" False] 1 2
  show ?thesis by simp
qed

text \<open>
  C2 as stated fails: \<open>"1.3.1990"\<close> is not of the pattern \<open>DD.MM.YYYY\<close>, yet \<open>Birthday\<close>
  succeeds on it, and the text of the birthday is \<open>"01.03.1990"\<close>, not the input.
\<close>

theorem Birthday_short_day_counterexample:
  "Birthday (ustr ''1.3.1990'') = Inr \<lparr>year = 1990, month = 3, day = 1\<rparr>
   \<and> \<not> spec_DD_MM_YYYY (ustr ''1.3.1990'')
   \<and> Birthday_str False \<lparr>year = 1990, month = 3, day = 1\<rparr> = ustr ''01.03.1990''
   \<and> Birthday_str True \<lparr>year = 1990, month = 3, day = 1\<rparr> = ustr ''01.03.1990''
   \<and> ustr ''01.03.1990'' \<noteq> ustr ''1.3.1990''"
proof -
  have "day_text [49]" "month_text [51]" "year_text [49, 57, 57, 48]"
    by (simp_all add: day_text_def month_text_def year_text_def is_Nd_def Nd_zeros_def)
  from strptime_on_date_text [OF this, of "[]"]
  have "strptime_d_m_Y (ustr ''1.3.1990'') = Inr \<lparr>year = 1990, month = 3, day = 1\<rparr>"
    by (simp add: eval_defs)
  then have 1: "Birthday (ustr ''1.3.1990'') = Inr \<lparr>year = 1990, month = 3, day = 1\<rparr>"
    by (simp add: Birthday_def)
  have 2: "\<not> spec_DD_MM_YYYY (ustr ''1.3.1990'')"
    by (simp add: spec_DD_MM_YYYY_def ustr_def)
  have "str_nat 1990 = ustr ''1990''"
    using str_nat_back [of 1 9 9 0] by (simp add: ustr_def)
  then have 3: "Birthday_str False \<lparr>year = 1990, month = 3, day = 1\<rparr> = ustr ''01.03.1990''"
    by (simp add: Birthday_str_def strftime_d_m_Y_def two_digits_def ustr_def)
  have 4: "Birthday_str True \<lparr>year = 1990, month = 3, day = 1\<rparr> = ustr ''01.03.1990''"
    by (simp add: Birthday_str_def strftime_d_m_Y_def two_digits_def four_digits_def ustr_def)
  have 5: "ustr ''01.03.1990'' \<noteq> ustr ''1.3.1990''"
    by (simp add: ustr_def)
  from 1 2 3 4 5 show ?thesis by blast
qed

section \<open>Days to the next birthday\<close>

text \<open>The ordinal of a date grows with the date, and a year has 365 or 366 days.\<close>

lemma days_before_year_Suc:
  assumes "1 \<le> y"
  shows "days_before_year (Suc y) = days_before_year y + 365 + (if is_leap y then 1 else 0)"
proof -
  from assms obtain z where y: "y = Suc z" by (cases y) auto
  define a b c w where "a = z div 4" and "b = z div 100" and "c = z div 400" and "w = z * 365"
  define e4 e100 e400 :: nat
    where "e4 = (if Suc z mod 4 = 0 then 1 else 0)"
      and "e100 = (if Suc z mod 100 = 0 then 1 else 0)"
      and "e400 = (if Suc z mod 400 = 0 then 1 else 0)"
  have le: "b \<le> a" unfolding a_def b_def by (rule div_le_mono2) simp_all
  have m1: "Suc z mod 100 = 0 \<Longrightarrow> Suc z mod 4 = 0" by presburger
  have m2: "Suc z mod 400 = 0 \<Longrightarrow> Suc z mod 100 = 0" by presburger
  have d: "Suc z div 4 = a + e4" "Suc z div 100 = b + e100" "Suc z div 400 = c + e400"
    by (simp_all add: div_Suc a_def b_def c_def e4_def e100_def e400_def)
  have l: "(if is_leap (Suc z) then 1 else 0) = e4 - e100 + e400"
    using m1 m2 by (auto simp: is_leap_def e4_def e100_def e400_def)
  have e: "e100 \<le> e4" "e400 \<le> e100" "e4 \<le> 1"
    using m1 m2 by (auto simp: e4_def e100_def e400_def)
  have 1: "days_before_year (Suc (Suc z)) = w + 365 + (a + e4) - (b + e100) + (c + e400)"
    by (simp add: days_before_year_def d w_def)
  have 2: "days_before_year (Suc z) = w + a - b + c"
    by (simp add: days_before_year_def a_def b_def c_def w_def)
  show ?thesis
    unfolding y 1 2 l using le e by arith
qed

lemma days_before_month_Suc:
  assumes "1 \<le> m" "m < 12"
  shows "days_before_month y (Suc m) = days_before_month y m + days_in_month y m"
proof -
  from assms have "m = 1 \<or> m = 2 \<or> m = 3 \<or> m = 4 \<or> m = 5 \<or> m = 6 \<or> m = 7 \<or> m = 8
      \<or> m = 9 \<or> m = 10 \<or> m = 11" by arith
  then show ?thesis
    by (auto simp: days_before_month_def days_in_month_def)
qed

lemma days_before_month_mono:
  assumes "1 \<le> m" "m \<le> m'" "m' \<le> 12"
  shows "days_before_month y m \<le> days_before_month y m'"
  using assms(2,1,3)
proof (induction m' rule: dec_induct)
  case base
  show ?case by simp
next
  case (step n)
  then have "days_before_month y (Suc n) = days_before_month y n + days_in_month y n"
    by (intro days_before_month_Suc) simp_all
  with step show ?case by simp
qed

lemma month_end_le:
  assumes "1 \<le> m" "m < m'" "m' \<le> 12"
  shows "days_before_month y m + days_in_month y m \<le> days_before_month y m'"
proof -
  from assms have "days_before_month y (Suc m) = days_before_month y m + days_in_month y m"
    by (intro days_before_month_Suc) simp_all
  moreover from assms have "days_before_month y (Suc m) \<le> days_before_month y m'"
    by (intro days_before_month_mono) simp_all
  ultimately show ?thesis by simp
qed

lemma toordinal_less:
  assumes "valid_date a" "valid_date b" "year a = year b" "date_less a b"
  shows "toordinal a < toordinal b"
proof (cases "month a = month b")
  case True
  with assms show ?thesis by (simp add: toordinal_def date_less_def)
next
  case False
  with assms(3,4) have lt: "month a < month b" by (simp add: date_less_def)
  from assms(1,2) have v: "1 \<le> month a" "month b \<le> 12" "day a \<le> days_in_month (year a) (month a)"
      "1 \<le> day b"
    by (simp_all add: valid_date_def)
  from month_end_le [OF v(1) lt v(2), of "year a"] v(3,4) assms(3)
  show ?thesis by (simp add: toordinal_def)
qed

lemma toordinal_le:
  assumes "valid_date a" "valid_date b" "year a = year b" "\<not> date_less b a"
  shows "toordinal a \<le> toordinal b"
proof (cases "date_less a b")
  case True
  from toordinal_less [OF assms(1,2,3) this] show ?thesis by simp
next
  case False
  with assms(3,4) have "month a = month b" "day a = day b"
    by (auto simp: date_less_def)
  with assms(3) show ?thesis by (simp add: toordinal_def)
qed

lemma year_length:
  assumes "valid_date t"
  shows "days_before_year (year t) < toordinal t"
    and "toordinal t \<le> days_before_year (Suc (year t))"
proof -
  from assms have v: "1 \<le> year t" "1 \<le> month t" "month t \<le> 12" "1 \<le> day t"
      "day t \<le> days_in_month (year t) (month t)"
    by (simp_all add: valid_date_def)
  then show "days_before_year (year t) < toordinal t" by (simp add: toordinal_def)
  have "days_before_month (year t) (month t) + days_in_month (year t) (month t)
          \<le> days_before_month (year t) 12 + 31"
  proof (cases "month t = 12")
    case True
    then show ?thesis by (simp add: days_in_month_def)
  next
    case False
    with v(3) have "month t < 12" by simp
    from month_end_le [OF v(2) this, of "year t"] show ?thesis by simp
  qed
  with v(5) have "days_before_month (year t) (month t) + day t
      \<le> 365 + (if is_leap (year t) then 1 else 0)"
    by (simp add: days_before_month_def)
  then show "toordinal t \<le> days_before_year (Suc (year t))"
    unfolding days_before_year_Suc [OF v(1)] toordinal_def by simp
qed

lemma toordinal_next_year:
  assumes "1 \<le> y"
  shows "toordinal \<lparr>year = Suc y, month = m, day = d\<rparr>
           \<le> toordinal \<lparr>year = y, month = m, day = d\<rparr> + 366"
  unfolding toordinal_def using days_before_year_Suc [OF assms]
  by (simp add: days_before_month_def)

text \<open>
  When \<open>days_to_birthday\<close> returns for a record with a birthday, it returns the number of
  days to a date that is not before today and less than a year away.
\<close>

lemma replace_year_Inr:
  assumes "replace_year b y = Inr nb"
  shows "valid_date nb" and "nb = \<lparr>year = y, month = month b, day = day b\<rparr>"
  using assms by (auto simp: replace_year_def date_new_Inr valid_date_def)

lemma days_to_birthday_no_birthday:
  "birthday r = None \<Longrightarrow> days_to_birthday today r = Inr None"
  by (simp add: days_to_birthday_def)

lemma days_to_birthday_result:
  assumes "birthday r = Some b" "days_to_birthday today r = Inr v"
  obtains nb where "replace_year b (year today) = Inr nb" "\<not> date_less nb today"
      "v = Some (days_between nb today)"
    | nb nb' where "replace_year b (year today) = Inr nb" "date_less nb today"
      "replace_year nb (year today + 1) = Inr nb'" "v = Some (days_between nb' today)"
  using assms
  by (auto simp: days_to_birthday_def split: sum.splits if_splits)

lemma days_to_birthday_range:
  assumes "valid_date today" "birthday r = Some b" "days_to_birthday today r = Inr v"
  shows "\<exists>n. v = Some n \<and> 0 \<le> n \<and> n \<le> 365"
  using assms(2,3)
proof (cases rule: days_to_birthday_result)
  case (1 nb)
  from replace_year_Inr [OF 1(1)] have nb: "valid_date nb" "year nb = year today" by simp_all
  from toordinal_le [OF assms(1) nb(1) nb(2) [symmetric] 1(2)]
  have a: "toordinal today \<le> toordinal nb" .
  from year_length [OF nb(1)] year_length [OF assms(1)] nb(2)
  have "toordinal nb \<le> days_before_year (Suc (year today))"
    "days_before_year (year today) < toordinal today" by simp_all
  moreover from assms(1) have "1 \<le> year today" by (simp add: valid_date_def)
  note days_before_year_Suc [OF this]
  ultimately have "toordinal nb \<le> toordinal today + 365" by (simp split: if_splits)
  with a 1(3) show ?thesis by (simp add: days_between_def)
next
  case (2 nb nb')
  note nb3 = replace_year_Inr(2) [OF 2(1)]
  from replace_year_Inr [OF 2(1)]
  have nb: "valid_date nb" "year nb = year today" by simp_all
  note v' = replace_year_Inr(1) [OF 2(3)]
  from replace_year_Inr(2) [OF 2(3)] nb3
  have nb': "nb' = \<lparr>year = Suc (year today), month = month b, day = day b\<rparr>"
    by simp
  from toordinal_less [OF nb(1) assms(1) nb(2) 2(2)]
  have a: "toordinal nb < toordinal today" .
  from assms(1) have y: "1 \<le> year today" by (simp add: valid_date_def)
  from toordinal_next_year [OF y, of "month b" "day b"]
  have b: "toordinal nb' \<le> toordinal nb + 366" unfolding nb3 nb' .
  from year_length(2) [OF assms(1)] year_length(1) [OF v'] nb'
  have c: "toordinal today < toordinal nb'" by simp
  from a b c 2(4) show ?thesis by (simp add: days_between_def)
qed

text \<open>
  C4 at a failing input: for a record with the birthday 29.02.2000, on 01.01.2023,
  \<open>replace(year=2023)\<close> raises \<open>ValueError\<close>, since 2023 has no 29 February; no number of
  days is returned. (Whenever a number is returned it is from 0 to 365, by
  \<open>days_to_birthday_range\<close>.)
\<close>

theorem days_to_birthday_feb_29_raises:
  "days_to_birthday \<lparr>year = 2023, month = 1, day = 1\<rparr>
     \<lparr>name = ustr ''Bob'', phones = [], birthday = Some \<lparr>year = 2000, month = 2, day = 29\<rparr>\<rparr>
   = Inl (ValueError (ustr ''day is out of range for month''))"
  by (simp add: days_to_birthday_def replace_year_def date_new_def days_in_month_def is_leap_def)

section \<open>Upcoming birthdays\<close>

text \<open>
  When \<open>days_to_birthday\<close> raises for no record, the loop returns the entries of the
  records in the order of the book, and \<open>today + timedelta(days)\<close> does not overflow.
\<close>

lemma days_before_year_mono:
  assumes "1 \<le> y" "y \<le> y'"
  shows "days_before_year y \<le> days_before_year y'"
  using assms(2,1)
proof (induction y' rule: dec_induct)
  case base
  show ?case by simp
next
  case (step n)
  then have "1 \<le> n" by simp
  from days_before_year_Suc [OF this] step show ?case by simp
qed

lemma toordinal_bounds:
  assumes "valid_date t"
  shows "0 < toordinal t" and "toordinal t \<le> 3652059"
proof -
  from year_length(1) [OF assms] show "0 < toordinal t" by simp
  from assms have "1 \<le> Suc (year t)" "Suc (year t) \<le> 10000" by (simp_all add: valid_date_def)
  from days_before_year_mono [OF this]
  have "days_before_year (Suc (year t)) \<le> 3652059" by (simp add: days_before_year_def)
  with year_length(2) [OF assms] show "toordinal t \<le> 3652059" by simp
qed

lemma days_to_birthday_target:
  assumes "birthday r = Some b" "days_to_birthday today r = Inr v"
  obtains t where "valid_date t" "v = Some (days_between t today)"
  using assms(1,2)
proof (cases rule: days_to_birthday_result)
  case (1 nb)
  from replace_year_Inr(1) [OF 1(1)] 1(3) that show ?thesis by blast
next
  case (2 nb nb')
  from replace_year_Inr(1) [OF 2(3)] 2(4) that show ?thesis by blast
qed

lemma date_add_days_to_target:
  assumes "valid_date t"
  shows "date_add_days today (days_between t today)
           = Inr (fromordinal (nat (int (toordinal today) + days_between t today)))"
  using toordinal_bounds [OF assms]
  by (simp add: date_add_days_def days_between_def Let_def)

lemma upcoming_loop_step:
  assumes "\<forall>e. days_to_birthday today r \<noteq> Inl e"
  shows "upcoming_loop pad today (r # rs) acc
           = upcoming_loop pad today rs (acc @ upcoming_entry pad today r)"
proof (cases "birthday r")
  case None
  then show ?thesis by (simp add: upcoming_entry_def)
next
  case (Some b)
  from assms obtain v where v: "days_to_birthday today r = Inr v"
    by (cases "days_to_birthday today r") auto
  from days_to_birthday_target [OF Some v] obtain t
    where t: "valid_date t" "v = Some (days_between t today)" by blast
  from date_add_days_to_target [OF t(1), of today] Some v t(2)
  show ?thesis by (simp add: upcoming_entry_def)
qed

lemma upcoming_loop_returns:
  assumes "\<forall>r\<in>set rs. \<forall>e. days_to_birthday today r \<noteq> Inl e"
  shows "upcoming_loop pad today rs acc = Inr (acc @ concat (map (upcoming_entry pad today) rs))"
  using assms
proof (induction rs arbitrary: acc)
  case Nil
  show ?case by simp
next
  case (Cons r rs)
  from Cons.prems have "\<forall>e. days_to_birthday today r \<noteq> Inl e" by simp
  from upcoming_loop_step [OF this] Cons show ?case by simp
qed

lemma get_upcoming_birthdays_returns:
  assumes "\<forall>r\<in>snd ` set book. \<forall>e. days_to_birthday today r \<noteq> Inl e"
  shows "get_upcoming_birthdays pad today book
           = Inr (concat (map (\<lambda>kv. upcoming_entry pad today (snd kv)) book))"
  using upcoming_loop_returns [of "map snd book" today pad "[]"] assms
  by (simp add: get_upcoming_birthdays_def comp_def)

text \<open>A book on 11.03.2024: only the birthday four days ahead is listed.\<close>

lemma str_nat_2024: "str_nat 2024 = [50, 48, 50, 52]"
proof -
  have 1: "str_nat 2 = [50]" by (subst str_nat.simps) simp
  have 2: "str_nat 20 = [50, 48]" by (subst str_nat.simps) (simp add: 1)
  have 3: "str_nat 202 = [50, 48, 50]" by (subst str_nat.simps) (simp add: 2)
  show ?thesis by (subst str_nat.simps) (simp add: 3)
qed

lemma days_to_birthday_example:
  "days_to_birthday \<lparr>year = 2024, month = 3, day = 11\<rparr>
     \<lparr>name = ustr ''Bob'', phones = [], birthday = Some \<lparr>year = 1990, month = 3, day = 15\<rparr>\<rparr>
   = Inr (Some 4)"
  by (simp add: days_to_birthday_def replace_year_def date_new_def days_in_month_def is_leap_def
      date_less_def days_between_def toordinal_def days_before_year_def days_before_month_def)

lemma days_to_birthday_example_next_year:
  "days_to_birthday \<lparr>year = 2024, month = 3, day = 11\<rparr>
     \<lparr>name = ustr ''Al'', phones = [], birthday = Some \<lparr>year = 2000, month = 1, day = 1\<rparr>\<rparr>
   = Inr (Some 296)"
  by (simp add: days_to_birthday_def replace_year_def date_new_def days_in_month_def is_leap_def
      date_less_def days_between_def toordinal_def days_before_year_def days_before_month_def)

lemma fromordinal_example:
  "fromordinal (nat (int (toordinal \<lparr>year = 2024, month = 3, day = 11\<rparr>) + 4))
     = \<lparr>year = 2024, month = 3, day = 15\<rparr>"
  by (simp add: toordinal_def days_before_year_def days_before_month_def is_leap_def
      fromordinal_def Let_def)

lemma get_upcoming_birthdays_example:
  "get_upcoming_birthdays False \<lparr>year = 2024, month = 3, day = 11\<rparr>
     [(ustr ''Bob'', \<lparr>name = ustr ''Bob'', phones = [],
                       birthday = Some \<lparr>year = 1990, month = 3, day = 15\<rparr>\<rparr>),
      (ustr ''Eve'', \<lparr>name = ustr ''Eve'', phones = [], birthday = None\<rparr>),
      (ustr ''Al'', \<lparr>name = ustr ''Al'', phones = [],
                      birthday = Some \<lparr>year = 2000, month = 1, day = 1\<rparr>\<rparr>)]
   = Inr [\<lparr>u_name = ustr ''Bob'', u_birthday = \<lparr>year = 1990, month = 3, day = 15\<rparr>,
            congratulation_date = ustr ''15.03.2024''\<rparr>]"
proof -
  have "days_to_birthday \<lparr>year = 2024, month = 3, day = 11\<rparr>
          \<lparr>name = ustr ''Eve'', phones = [], birthday = None\<rparr> = Inr None"
    by (simp add: days_to_birthday_def)
  with days_to_birthday_example days_to_birthday_example_next_year
  have "get_upcoming_birthdays False \<lparr>year = 2024, month = 3, day = 11\<rparr>
     [(ustr ''Bob'', \<lparr>name = ustr ''Bob'', phones = [],
                       birthday = Some \<lparr>year = 1990, month = 3, day = 15\<rparr>\<rparr>),
      (ustr ''Eve'', \<lparr>name = ustr ''Eve'', phones = [], birthday = None\<rparr>),
      (ustr ''Al'', \<lparr>name = ustr ''Al'', phones = [],
                      birthday = Some \<lparr>year = 2000, month = 1, day = 1\<rparr>\<rparr>)]
   = Inr [\<lparr>u_name = ustr ''Bob'', u_birthday = \<lparr>year = 1990, month = 3, day = 15\<rparr>,
            congratulation_date = strftime_d_m_Y False
              (fromordinal (nat (int (toordinal \<lparr>year = 2024, month = 3, day = 11\<rparr>) + 4)))\<rparr>]"
    by (subst get_upcoming_birthdays_returns) (simp_all add: upcoming_entry_def)
  then show ?thesis
    unfolding fromordinal_example
    by (simp add: strftime_d_m_Y_def two_digits_def str_nat_2024 ustr_def)
qed

text \<open>
  C5 at a failing input: with such a record in the book, on 25.02.2023,
  \<open>get_upcoming_birthdays\<close> raises the same \<open>ValueError\<close> and returns no list. (When
  \<open>days_to_birthday\<close> raises for no record of the book, the list is the one the claim
  describes, by \<open>get_upcoming_birthdays_returns\<close>.)
\<close>

theorem get_upcoming_birthdays_feb_29_raises:
  "get_upcoming_birthdays pad \<lparr>year = 2023, month = 2, day = 25\<rparr>
     [(ustr ''Bob'', \<lparr>name = ustr ''Bob'', phones = [],
                       birthday = Some \<lparr>year = 2000, month = 2, day = 29\<rparr>\<rparr>)]
   = Inl (ValueError (ustr ''day is out of range for month''))"
  by (simp add: get_upcoming_birthdays_def days_to_birthday_def replace_year_def date_new_def
      days_in_month_def is_leap_def)

section \<open>The book as a dictionary\<close>

lemma map_of_dict_set: "map_of (dict_set k v book) = (map_of book)(k \<mapsto> v)"
  by (induction book) auto

lemma map_fst_dict_set:
  "map fst (dict_set k v book) =
     (if k \<in> set (map fst book) then map fst book else map fst book @ [k])"
  by (induction book) (force+)

lemma distinct_dict_set:
  "distinct (map fst book) \<Longrightarrow> distinct (map fst (dict_set k v book))"
  by (simp add: map_fst_dict_set)

text \<open>
  A change of a record reaches the book only where the book holds the record: it keeps
  the keys, and a book without the key stays as it is.
\<close>

lemma map_of_mutate_record:
  "map_of (mutate_record k v book) k' =
     (if k' = k \<and> map_of book k \<noteq> None then Some v else map_of book k')"
  by (induction book) auto

lemma map_fst_mutate_record: "map fst (mutate_record k v book) = map fst book"
  by (induction book) auto

lemma mutate_record_absent: "map_of book k = None \<Longrightarrow> mutate_record k v book = book"
  by (induction book) auto

text \<open>
  C6: \<open>find\<close> on a name that is not in the book returns the string
  \<open>"Contact not found."\<close> (a value, the function has no failing branch), and \<open>find\<close> of
  the name of \<open>r\<close> right after \<open>add_record(r)\<close> returns \<open>r\<close>.
\<close>

theorem find_absent_and_after_add:
  "(map_of book n = None \<longrightarrow> find_contact book n = Str (ustr ''Contact not found.''))
   \<and> find_contact (snd (add_record book r)) (name r) = Rec r"
  by (simp add: find_contact_def add_record_def map_of_dict_set)

theorem find_absent_and_after_add_witness:
  "map_of ([] :: AddressBook) (ustr ''Ghost'') = None
   \<and> find_contact [] (ustr ''Ghost'') = Str (ustr ''Contact not found.'')
   \<and> find_contact (snd (add_record [] (Record_init (ustr ''Bob''))))
         (name (Record_init (ustr ''Bob''))) = Rec (Record_init (ustr ''Bob''))"
  using find_absent_and_after_add [of "[]" "ustr ''Ghost''" "Record_init (ustr ''Bob'')"]
  by simp

section \<open>The command \<open>add_contact\<close>\<close>

lemma Phone_valid: "length s = 10 \<Longrightarrow> list_all is_Nd s \<Longrightarrow> Phone s = Inr s"
  by (simp add: Phone_def fullmatch_phone_regex)

lemma ustr_not_Nil: "ustr (c # cs) \<noteq> []"
  by (simp add: ustr_def)

lemma Phone_0123456789: "Phone (ustr ''0123456789'') = Inr (ustr ''0123456789'')"
  by (rule Phone_valid) (simp_all add: ustr_def is_Nd_def Nd_zeros_def)

lemma Phone_9876543210: "Phone (ustr ''9876543210'') = Inr (ustr ''9876543210'')"
  by (rule Phone_valid) (simp_all add: ustr_def is_Nd_def Nd_zeros_def)

lemma add_contact_new:
  assumes "map_of book n = None" "phone \<noteq> []"
  shows "add_contact_body (n # phone # rest) book =
           (case Phone phone of
              Inl e \<Rightarrow> (Inl e, dict_set n (Record_init n) book)
            | Inr p \<Rightarrow> (Inr (ustr ''Contact added.''),
                        mutate_record n \<lparr>name = n, phones = [p], birthday = None\<rparr>
                          (dict_set n (Record_init n) book)))"
  using assms
  by (simp add: add_contact_body_def find_contact_def add_record_def add_phone_def
      Record_init_def split: sum.splits)

lemma add_contact_old:
  assumes "map_of book n = Some r" "phone \<noteq> []"
  shows "add_contact_body (n # phone # rest) book =
           (case Phone phone of
              Inl e \<Rightarrow> (Inl e, book)
            | Inr p \<Rightarrow> (Inr (ustr ''Contact updated.''),
                        mutate_record n (r\<lparr>phones := phones r @ [p]\<rparr>) book))"
  using assms
  by (simp add: add_contact_body_def find_contact_def add_phone_def split: sum.splits)

text \<open>
  C7: from a book without \<open>"Alice"\<close>, \<open>add_contact(["Alice","0123456789"])\<close> returns
  \<open>"Contact added."\<close>, then \<open>add_contact(["Alice","9876543210"])\<close> returns
  \<open>"Contact updated."\<close>, and afterwards the record of Alice holds the two phones
  \<open>["0123456789","9876543210"]\<close>, in this order.
\<close>

theorem add_contact_Alice_twice:
  assumes "map_of book (ustr ''Alice'') = None"
  shows "fst (add_contact [ustr ''Alice'', ustr ''0123456789''] book) = ustr ''Contact added.''
    \<and> fst (add_contact [ustr ''Alice'', ustr ''9876543210'']
             (snd (add_contact [ustr ''Alice'', ustr ''0123456789''] book))) = ustr ''Contact updated.''
    \<and> find_contact (snd (add_contact [ustr ''Alice'', ustr ''9876543210'']
             (snd (add_contact [ustr ''Alice'', ustr ''0123456789''] book)))) (ustr ''Alice'')
        = Rec \<lparr>name = ustr ''Alice'', phones = [ustr ''0123456789'', ustr ''9876543210''],
                birthday = None\<rparr>"
proof -
  let ?b1 = "mutate_record (ustr ''Alice'')
               \<lparr>name = ustr ''Alice'', phones = [ustr ''0123456789''], birthday = None\<rparr>
               (dict_set (ustr ''Alice'') (Record_init (ustr ''Alice'')) book)"
  have 1: "add_contact [ustr ''Alice'', ustr ''0123456789''] book = (ustr ''Contact added.'', ?b1)"
    using add_contact_new [OF assms, of "ustr ''0123456789''" "[]"]
    by (simp add: add_contact_def input_error_def Phone_0123456789 ustr_not_Nil)
  have "map_of ?b1 (ustr ''Alice'')
          = Some \<lparr>name = ustr ''Alice'', phones = [ustr ''0123456789''], birthday = None\<rparr>"
    by (simp add: map_of_mutate_record map_of_dict_set)
  from add_contact_old [OF this, of "ustr ''9876543210''" "[]"]
  have 2: "add_contact [ustr ''Alice'', ustr ''9876543210''] ?b1 =
      (ustr ''Contact updated.'', mutate_record (ustr ''Alice'')
         \<lparr>name = ustr ''Alice'', phones = [ustr ''0123456789'', ustr ''9876543210''],
           birthday = None\<rparr> ?b1)"
    by (simp add: add_contact_def input_error_def Phone_9876543210 ustr_not_Nil)
  show ?thesis
    by (simp add: 1 2 find_contact_def map_of_mutate_record map_of_dict_set)
qed

theorem add_contact_Alice_twice_witness:
  "map_of ([] :: AddressBook) (ustr ''Alice'') = None
    \<and> fst (add_contact [ustr ''Alice'', ustr ''0123456789''] []) = ustr ''Contact added.''
    \<and> fst (add_contact [ustr ''Alice'', ustr ''9876543210'']
             (snd (add_contact [ustr ''Alice'', ustr ''0123456789''] []))) = ustr ''Contact updated.''
    \<and> find_contact (snd (add_contact [ustr ''Alice'', ustr ''9876543210'']
             (snd (add_contact [ustr ''Alice'', ustr ''0123456789''] [])))) (ustr ''Alice'')
        = Rec \<lparr>name = ustr ''Alice'', phones = [ustr ''0123456789'', ustr ''9876543210''],
                birthday = None\<rparr>"
  using add_contact_Alice_twice [of "[]"] by simp

text \<open>
  C8, as the code has it: when the name is not in the book and the phone string is not
  empty and fails the validation of \<open>Phone\<close>, \<open>add_contact\<close> returns the text of the
  validation error, and the book then holds a record under the name with no phone: the
  record added before the validation stays.
\<close>

theorem add_contact_invalid_phone_keeps_new_record:
  assumes "map_of book n = None" and "phone \<noteq> []" and "Phone phone = Inl e"
  shows "fst (add_contact (n # phone # rest) book)
           = ustr ''Phone number must contain exactly 10 digits.''
       \<and> find_contact (snd (add_contact (n # phone # rest) book)) n
           = Rec \<lparr>name = n, phones = [], birthday = None\<rparr>"
proof -
  from assms(3) have e: "e = ValueError (ustr ''Phone number must contain exactly 10 digits.'')"
    by (auto simp: Phone_def split: option.splits)
  show ?thesis
    using add_contact_new [OF assms(1,2), of rest] assms(3)
    by (simp add: add_contact_def input_error_def e find_contact_def map_of_dict_set
        Record_init_def)
qed

lemma Phone_12345: "Phone (ustr ''12345'') = Inl (ValueError (ustr ''Phone number must contain exactly 10 digits.''))"
  by (simp add: Phone_def fullmatch_phone_regex ustr_def)

theorem add_contact_invalid_phone_keeps_new_record_witness:
  "map_of ([] :: AddressBook) (ustr ''Bob'') = None \<and> ustr ''12345'' \<noteq> []
   \<and> Phone (ustr ''12345'') = Inl (ValueError (ustr ''Phone number must contain exactly 10 digits.''))
   \<and> fst (add_contact [ustr ''Bob'', ustr ''12345''] [])
           = ustr ''Phone number must contain exactly 10 digits.''
   \<and> find_contact (snd (add_contact [ustr ''Bob'', ustr ''12345''] [])) (ustr ''Bob'')
           = Rec \<lparr>name = ustr ''Bob'', phones = [], birthday = None\<rparr>"
  using add_contact_invalid_phone_keeps_new_record
    [of "[]" "ustr ''Bob''" "ustr ''12345''" _ "[]", OF _ _ Phone_12345]
  by (simp add: Phone_12345 ustr_not_Nil)

text \<open>
  C8 as stated fails for the empty phone string: it fails the validation of \<open>Phone\<close>,
  but \<open>if phone:\<close> skips \<open>add_phone\<close>, and \<open>add_contact\<close> returns \<open>"Contact added."\<close>.
\<close>

theorem add_contact_empty_phone_counterexample:
  "map_of ([] :: AddressBook) (ustr ''Bob'') = None
   \<and> Phone [] = Inl (ValueError (ustr ''Phone number must contain exactly 10 digits.''))
   \<and> fst (add_contact [ustr ''Bob'', []] []) = ustr ''Contact added.''
   \<and> fst (add_contact [ustr ''Bob'', []] []) \<noteq> ustr ''Phone number must contain exactly 10 digits.''"
  by (simp add: Phone_def fullmatch_phone_regex add_contact_def add_contact_body_def
      input_error_def find_contact_def add_record_def Record_init_def ustr_def Let_def)

section \<open>Removing and editing a phone\<close>

lemma remove_first_None: "remove_first v ps = None \<longleftrightarrow> v \<notin> set ps"
  by (induction ps) auto

lemma remove_first_Some:
  "remove_first v ps = Some qs \<Longrightarrow>
     \<exists>pre post. ps = pre @ v # post \<and> v \<notin> set pre \<and> qs = pre @ post"
proof (induction ps arbitrary: qs)
  case Nil
  then show ?case by simp
next
  case (Cons p ps)
  show ?case
  proof (cases "p = v")
    case True
    with Cons.prems have "qs = ps" by simp
    with True have "p # ps = [] @ v # ps \<and> v \<notin> set [] \<and> qs = [] @ ps" by simp
    then show ?thesis by blast
  next
    case False
    with Cons.prems obtain qs' where q: "remove_first v ps = Some qs'" "qs = p # qs'"
      by auto
    from Cons.IH [OF q(1)] obtain pre post
      where "ps = pre @ v # post" "v \<notin> set pre" "qs' = pre @ post" by blast
    with False q(2) have "p # ps = (p # pre) @ v # post \<and> v \<notin> set (p # pre) \<and> qs = (p # pre) @ post"
      by auto
    then show ?thesis by blast
  qed
qed

lemma replace_first_None: "replace_first v w ps = None \<longleftrightarrow> v \<notin> set ps"
  by (induction ps) auto

lemma replace_first_Some:
  "replace_first v w ps = Some qs \<Longrightarrow>
     \<exists>pre post. ps = pre @ v # post \<and> v \<notin> set pre \<and> qs = pre @ w # post"
proof (induction ps arbitrary: qs)
  case Nil
  then show ?case by simp
next
  case (Cons p ps)
  show ?case
  proof (cases "p = v")
    case True
    with Cons.prems have "qs = w # ps" by simp
    with True have "p # ps = [] @ v # ps \<and> v \<notin> set [] \<and> qs = [] @ w # ps" by simp
    then show ?thesis by blast
  next
    case False
    with Cons.prems obtain qs' where q: "replace_first v w ps = Some qs'" "qs = p # qs'"
      by auto
    from Cons.IH [OF q(1)] obtain pre post
      where "ps = pre @ v # post" "v \<notin> set pre" "qs' = pre @ w # post" by blast
    with False q(2) have "p # ps = (p # pre) @ v # post \<and> v \<notin> set (p # pre) \<and> qs = (p # pre) @ w # post"
      by auto
    then show ?thesis by blast
  qed
qed

text \<open>
  C9: \<open>remove_phone(p)\<close> and \<open>edit_phone(p, q)\<close> leave the name and the birthday of the
  record as they are. When no phone has the value \<open>p\<close>, the record is unchanged and the
  text \<open>"Phone p not found."\<close> is returned. Otherwise the phones are \<open>pre @ p # post\<close> with
  no \<open>p\<close> in \<open>pre\<close>, and they become \<open>pre @ post\<close> (\<open>pre @ q # post\<close> for \<open>edit_phone\<close>): only
  the first phone with the value changes, later duplicates in \<open>post\<close> stay.
\<close>

theorem phone_mutation_frame:
  "name (snd (remove_phone r p)) = name r \<and> birthday (snd (remove_phone r p)) = birthday r
   \<and> (p \<notin> set (phones r) \<longrightarrow>
        remove_phone r p = (ustr ''Phone '' @ p @ ustr '' not found.'', r))
   \<and> (p \<in> set (phones r) \<longrightarrow>
        (\<exists>pre post. phones r = pre @ p # post \<and> p \<notin> set pre
           \<and> phones (snd (remove_phone r p)) = pre @ post))
   \<and> name (snd (edit_phone r p q)) = name r \<and> birthday (snd (edit_phone r p q)) = birthday r
   \<and> (p \<notin> set (phones r) \<longrightarrow>
        edit_phone r p q = (ustr ''Phone '' @ p @ ustr '' not found.'', r))
   \<and> (p \<in> set (phones r) \<longrightarrow>
        (\<exists>pre post. phones r = pre @ p # post \<and> p \<notin> set pre
           \<and> phones (snd (edit_phone r p q)) = pre @ q # post))"
proof -
  have a: "name (snd (remove_phone r p)) = name r \<and> birthday (snd (remove_phone r p)) = birthday r"
    by (simp add: remove_phone_def split: option.splits)
  have b: "p \<notin> set (phones r) \<longrightarrow>
        remove_phone r p = (ustr ''Phone '' @ p @ ustr '' not found.'', r)"
    by (simp add: remove_phone_def remove_first_None [symmetric])
  have c: "p \<in> set (phones r) \<longrightarrow>
        (\<exists>pre post. phones r = pre @ p # post \<and> p \<notin> set pre
           \<and> phones (snd (remove_phone r p)) = pre @ post)"
  proof
    assume "p \<in> set (phones r)"
    then obtain qs where q: "remove_first p (phones r) = Some qs"
      using remove_first_None [of p "phones r"] by auto
    from remove_first_Some [OF q] q
    show "\<exists>pre post. phones r = pre @ p # post \<and> p \<notin> set pre
           \<and> phones (snd (remove_phone r p)) = pre @ post"
      by (simp add: remove_phone_def)
  qed
  have d: "name (snd (edit_phone r p q)) = name r \<and> birthday (snd (edit_phone r p q)) = birthday r"
    by (simp add: edit_phone_def split: option.splits)
  have e: "p \<notin> set (phones r) \<longrightarrow>
        edit_phone r p q = (ustr ''Phone '' @ p @ ustr '' not found.'', r)"
    using replace_first_None [of p q "phones r"] by (auto simp: edit_phone_def)
  have f: "p \<in> set (phones r) \<longrightarrow>
        (\<exists>pre post. phones r = pre @ p # post \<and> p \<notin> set pre
           \<and> phones (snd (edit_phone r p q)) = pre @ q # post)"
  proof
    assume "p \<in> set (phones r)"
    then obtain qs where q: "replace_first p q (phones r) = Some qs"
      using replace_first_None [of p q "phones r"] by auto
    from replace_first_Some [OF q] q
    show "\<exists>pre post. phones r = pre @ p # post \<and> p \<notin> set pre
           \<and> phones (snd (edit_phone r p q)) = pre @ q # post"
      by (simp add: edit_phone_def)
  qed
  from a b c d e f show ?thesis by blast
qed

theorem phone_mutation_frame_witness:
  "remove_phone \<lparr>name = [65], phones = [[49], [50], [49]], birthday = None\<rparr> [49]
     = (ustr ''Phone '' @ [49] @ ustr '' removed.'',
        \<lparr>name = [65], phones = [[50], [49]], birthday = None\<rparr>)
   \<and> edit_phone \<lparr>name = [65], phones = [[49], [50], [49]], birthday = None\<rparr> [49] [51]
     = (ustr ''Phone '' @ [49] @ ustr '' changed to '' @ [51] @ ustr ''.'',
        \<lparr>name = [65], phones = [[51], [50], [49]], birthday = None\<rparr>)
   \<and> remove_phone \<lparr>name = [65], phones = [[49], [50], [49]], birthday = None\<rparr> [52]
     = (ustr ''Phone '' @ [52] @ ustr '' not found.'',
        \<lparr>name = [65], phones = [[49], [50], [49]], birthday = None\<rparr>)
   \<and> edit_phone \<lparr>name = [65], phones = [[49], [50], [49]], birthday = None\<rparr> [52] [51]
     = (ustr ''Phone '' @ [52] @ ustr '' not found.'',
        \<lparr>name = [65], phones = [[49], [50], [49]], birthday = None\<rparr>)"
  using phone_mutation_frame
    [of "\<lparr>name = [65], phones = [[49], [50], [49]], birthday = None\<rparr>" "[52]" "[51]"]
  by (simp add: remove_phone_def edit_phone_def)

section \<open>The command \<open>add_birthday\<close>\<close>

text \<open>
  C10: for a record of the book that has a birthday, \<open>add_birthday\<close> with a date string
  that \<open>Birthday\<close> refuses returns the error text and leaves the book, and so the
  birthday stored, unchanged.
\<close>

theorem add_birthday_invalid_keeps_birthday:
  assumes "map_of book n = Some r" and "birthday r = Some d" and "Birthday s = Inl e"
  shows "add_birthday (n # s # rest) book = (ustr ''Invalid date format. Use DD.MM.YYYY'', book)"
  using assms Birthday_error [OF assms(3)]
  by (simp add: add_birthday_def add_birthday_body_def input_error_def find_contact_def
      Record_add_birthday_def)

lemma Birthday_31_04:
  "Birthday (ustr ''31.04.2020'') = Inl (ValueError (ustr ''Invalid date format. Use DD.MM.YYYY''))"
  by (simp add: Birthday_def strptime_d_m_Y_def re_match_def format_regex_def day_regex_def
      month_regex_def year_regex_def ustr_def ch_def is_Nd_def Nd_zeros_def group_def py_int_def
      digit_value_def date_new_def days_in_month_def is_leap_def)

theorem add_birthday_invalid_keeps_birthday_witness:
  "add_birthday [ustr ''Alice'', ustr ''31.04.2020'']
     [(ustr ''Alice'', \<lparr>name = ustr ''Alice'', phones = [],
                         birthday = Some \<lparr>year = 1990, month = 3, day = 15\<rparr>\<rparr>)]
   = (ustr ''Invalid date format. Use DD.MM.YYYY'',
      [(ustr ''Alice'', \<lparr>name = ustr ''Alice'', phones = [],
                         birthday = Some \<lparr>year = 1990, month = 3, day = 15\<rparr>\<rparr>)])"
  using add_birthday_invalid_keeps_birthday
    [of "[(ustr ''Alice'', \<lparr>name = ustr ''Alice'', phones = [],
                         birthday = Some \<lparr>year = 1990, month = 3, day = 15\<rparr>\<rparr>)]"
        "ustr ''Alice''" _ "\<lparr>year = 1990, month = 3, day = 15\<rparr>" "ustr ''31.04.2020''" _ "[]",
     OF _ _ Birthday_31_04]
  by simp

section \<open>Saving and loading\<close>

text \<open>
  The books the program builds are well formed: storing under a key and changing a
  record keep the keys distinct (\<open>distinct_dict_set\<close>, \<open>map_fst_mutate_record\<close>), and every
  birthday \<open>Birthday\<close> accepts is a date of the calendar.
\<close>

lemma Birthday_valid_date: "Birthday s = Inr t \<Longrightarrow> valid_date t"
  by (auto simp: Birthday_def strptime_d_m_Y_def date_new_Inr valid_date_def
      split: sum.splits exn.splits option.splits if_splits)

text \<open>
  The unpickler stores the items of a dictionary one by one; items with distinct keys
  come back as they were written, in the same order.
\<close>

lemma dict_set_fresh: "k \<notin> fst ` set d \<Longrightarrow> dict_set k v d = d @ [(k, v)]"
  by (induction d) auto

lemma build_dict_distinct:
  "distinct (map fst kvs) \<Longrightarrow> fst ` set d \<inter> fst ` set kvs = {} \<Longrightarrow>
   build_dict d (map (\<lambda>(k, v). (P_Str k, f v)) kvs) = Some (d @ map (\<lambda>(k, v). (k, f v)) kvs)"
proof (induction kvs arbitrary: d)
  case Nil
  then show ?case by simp
next
  case (Cons kv kvs)
  obtain k v where kv: "kv = (k, v)" by (cases kv)
  from Cons.prems have fresh: "k \<notin> fst ` set d" by (auto simp: kv)
  have "distinct (map fst kvs)" using Cons.prems by simp
  moreover have "fst ` set (d @ [(k, f v)]) \<inter> fst ` set kvs = {}"
    using Cons.prems by (auto simp: kv)
  ultimately have "build_dict (d @ [(k, f v)]) (map (\<lambda>(k, v). (P_Str k, f v)) kvs)
      = Some ((d @ [(k, f v)]) @ map (\<lambda>(k, v). (k, f v)) kvs)"
    by (rule Cons.IH)
  then show ?case by (simp add: kv dict_set_fresh [OF fresh])
qed

lemma unpickle_Name_back: "unpickle_Name (pickle_Name v) = Some v"
  by (simp add: unpickle_Name_def pickle_Name_def pickle_instance_def instance_dict_def
      attr_def unpickle_str_def)

lemma unpickle_Phone_back: "unpickle_Phone (pickle_Phone v) = Some v"
  by (simp add: unpickle_Phone_def pickle_Phone_def pickle_instance_def instance_dict_def
      attr_def unpickle_str_def)

lemma unpickle_date_back:
  "1 \<le> month t \<Longrightarrow> month t \<le> 12 \<Longrightarrow> unpickle_date (pickle_date t) = Some t"
  by (simp add: unpickle_date_def pickle_date_def)

lemma unpickle_Birthday_back:
  "valid_date t \<Longrightarrow> unpickle_Birthday (pickle_Birthday t) = Some t"
  by (simp add: unpickle_Birthday_def pickle_Birthday_def pickle_instance_def instance_dict_def
      attr_def unpickle_date_back valid_date_def)

lemma unpickle_phones_back: "unpickle_all unpickle_Phone (map pickle_Phone ps) = Some ps"
  by (induction ps) (simp_all add: unpickle_Phone_back)

lemma pickle_Birthday_not_None: "pickle_Birthday t \<noteq> P_None"
  by (simp add: pickle_Birthday_def pickle_instance_def)

lemma unpickle_birthday_attr_back:
  "(case b of None \<Rightarrow> True | Some t \<Rightarrow> valid_date t) \<Longrightarrow>
   unpickle_birthday_attr (case b of None \<Rightarrow> P_None | Some t \<Rightarrow> pickle_Birthday t) = Some b"
  by (cases b)
     (simp_all add: unpickle_birthday_attr_def unpickle_Birthday_back pickle_Birthday_def
        pickle_instance_def unpickle_Birthday_def instance_dict_def attr_def unpickle_date_back valid_date_def)

lemma ustr_neq: "ustr ''name'' \<noteq> ustr ''phones''" "ustr ''name'' \<noteq> ustr ''birthday''"
   "ustr ''phones'' \<noteq> ustr ''birthday''" "ustr ''phones'' \<noteq> ustr ''name''"
   "ustr ''birthday'' \<noteq> ustr ''name''" "ustr ''birthday'' \<noteq> ustr ''phones''"
  by (simp_all add: ustr_def)

lemma Record_instance_dict:
  "instance_dict ''Record'' (pickle_instance ''Record'' [(''name'', a), (''phones'', b), (''birthday'', c)])
    = Some [(ustr ''name'', a), (ustr ''phones'', b), (ustr ''birthday'', c)]"
  by (simp add: instance_dict_def pickle_instance_def ustr_neq)

lemma unpickle_Record_back:
  assumes "case birthday r of None \<Rightarrow> True | Some t \<Rightarrow> valid_date t"
  shows "unpickle_Record (pickle_Record r) = Some r"
  unfolding unpickle_Record_def pickle_Record_def Record_instance_dict
  by (simp add: attr_def ustr_neq unpickle_Name_back unpickle_phones_def unpickle_phones_back
      unpickle_birthday_attr_back [OF assms])

lemma unpickle_records_back:
  "list_all (\<lambda>kr. case birthday (snd kr) of None \<Rightarrow> True | Some t \<Rightarrow> valid_date t) book \<Longrightarrow>
   unpickle_records (map (\<lambda>(k, r). (k, pickle_Record r)) book) = Some book"
  by (induction book) (auto simp: unpickle_Record_back)

lemma unpickle_AddressBook_back:
  assumes "wf_AddressBook book"
  shows "unpickle_AddressBook (pickle_AddressBook book) = Some book"
proof -
  from assms have d: "distinct (map fst book)"
    and v: "list_all (\<lambda>kr. case birthday (snd kr) of None \<Rightarrow> True | Some t \<Rightarrow> valid_date t) book"
    by (simp_all add: wf_AddressBook_def)
  have "build_dict [] (map (\<lambda>(k, r). (P_Str k, pickle_Record r)) book)
          = Some ([] @ map (\<lambda>(k, r). (k, pickle_Record r)) book)"
    by (rule build_dict_distinct [OF d]) simp
  then have "unpickle_data (P_Dict (map (\<lambda>(k, r). (P_Str k, pickle_Record r)) book)) = Some book"
    by (simp add: unpickle_data_def unpickle_records_back [OF v])
  then show ?thesis
    by (simp add: unpickle_AddressBook_def pickle_AddressBook_def pickle_instance_def
        instance_dict_def attr_def)
qed

text \<open>
  C1: \<open>load_data\<close> after \<open>save_data\<close> on the same file name returns the book that was
  saved: the same names in the same order, and for every record the same name, the same
  list of phones in the same order and the same birthday, a date and not a string. This
  is proved of what \<open>pickle\<close> writes for the book and rebuilds from it, for every book
  whose keys are distinct and whose birthdays are dates of the calendar, as they are in
  every Python dictionary and every \<open>datetime.date\<close>.
\<close>

theorem load_after_save:
  assumes "wf_AddressBook book"
  shows "load_data filename (save_data book filename fs) = Inr book"
  by (simp add: load_data_def save_data_def unpickle_AddressBook_back [OF assms])

theorem load_after_save_witness:
  "wf_AddressBook
     [(ustr ''Alice'', \<lparr>name = ustr ''Alice'', phones = [ustr ''0123456789'', ustr ''9876543210''],
                         birthday = Some \<lparr>year = 1990, month = 3, day = 15\<rparr>\<rparr>),
      (ustr ''Bob'', \<lparr>name = ustr ''Bob'', phones = [], birthday = None\<rparr>)]
   \<and> load_data (ustr ''addressbook.pkl'')
     (save_data
        [(ustr ''Alice'', \<lparr>name = ustr ''Alice'', phones = [ustr ''0123456789'', ustr ''9876543210''],
                            birthday = Some \<lparr>year = 1990, month = 3, day = 15\<rparr>\<rparr>),
         (ustr ''Bob'', \<lparr>name = ustr ''Bob'', phones = [], birthday = None\<rparr>)]
        (ustr ''addressbook.pkl'') Map.empty)
   = Inr [(ustr ''Alice'', \<lparr>name = ustr ''Alice'', phones = [ustr ''0123456789'', ustr ''9876543210''],
                            birthday = Some \<lparr>year = 1990, month = 3, day = 15\<rparr>\<rparr>),
          (ustr ''Bob'', \<lparr>name = ustr ''Bob'', phones = [], birthday = None\<rparr>)]"
  using load_after_save
    [of "[(ustr ''Alice'', \<lparr>name = ustr ''Alice'', phones = [ustr ''0123456789'', ustr ''9876543210''],
                         birthday = Some \<lparr>year = 1990, month = 3, day = 15\<rparr>\<rparr>),
      (ustr ''Bob'', \<lparr>name = ustr ''Bob'', phones = [], birthday = None\<rparr>)]"
        "ustr ''addressbook.pkl''" Map.empty]
  by (simp add: wf_AddressBook_def valid_date_def days_in_month_def ustr_def)

end
